theory Spec2Isabelle
  imports Complex_Main
begin

section \<open>Python values shared by the services\<close>

text \<open>
  Byte strings and text are both character lists. The text operations the services use
  (\<open>startswith\<close>, \<open>endswith\<close>, \<open>in\<close>, \<open>lower\<close>, \<open>len\<close>) are written out below;
  \<open>lower\<close> maps the ASCII capitals only and \<open>length\<close> counts characters, so the model
  is the one of ASCII text.
\<close>

type_synonym bytes = string

datatype json =
    JNull
  | JBool bool
  | JNum real
  | JStr string
  | JArr "json list"
  | JObj "(string \<times> json) list"

text \<open>\<open>d.get(key, default)\<close> on a dictionary whose key may be missing.\<close>

definition get_or :: "'a option \<Rightarrow> 'a \<Rightarrow> 'a" where
  "get_or v d = (case v of None \<Rightarrow> d | Some x \<Rightarrow> x)"

definition startswith :: "string \<Rightarrow> string \<Rightarrow> bool" where
  "startswith s p = (take (length p) s = p)"

definition endswith :: "string \<Rightarrow> string \<Rightarrow> bool" where
  "endswith s p = (length p \<le> length s \<and> drop (length s - length p) s = p)"

text \<open>\<open>sub in s\<close> for two strings.\<close>

fun str_contains :: "string \<Rightarrow> string \<Rightarrow> bool" where
  "str_contains [] sub = (sub = [])"
| "str_contains (c # cs) sub = (startswith (c # cs) sub \<or> str_contains cs sub)"

definition lower_char :: "char \<Rightarrow> char" where
  "lower_char c =
     (let n = (of_char c :: nat) in if 65 \<le> n \<and> n \<le> 90 then char_of (n + 32) else c)"

definition lower :: "string \<Rightarrow> string" where
  "lower s = map lower_char s"

section \<open>Decision flow service (decision\_flow\_service.py)\<close>

subsection \<open>The oracle's responses\<close>

text \<open>
  The dictionaries the generative-model client returns, one record per response schema;
  a field that the code reads with \<open>.get(key, default)\<close> or tests with \<open>"error" in\<close> is
  optional.
\<close>

record compatibility =
  c_error :: "string option"
  total_score :: "real option"
  risk_classification :: "string option"
  dimensions :: "(string \<times> real) list"
  target_document_type :: "string option"
  reasoning :: "string option"

record rule =
  rule_path :: "string option"
  description :: "string option"
  justification :: "string option"

record selection =
  sel_error :: "string option"
  sel_safe_rules :: "rule list option"
  sel_conditional_rules :: "rule list option"
  sel_forbidden_rules :: "rule list option"

record deviation =
  location :: string
  original_text :: string
  changed_to :: string
  reason :: string
  rule_reference :: string
  severity :: string

record transform_dict =
  transformed_text :: "string option"
  t_deviations :: "deviation list option"
  t_preserved_items :: "string list option"
  t_change_summary :: "string option"
  t_error :: "string option"

text \<open>
  \<open>transform_document\<close> answers with a dictionary; \<open>apply\<close> also accepts a legacy
  answer that is no dictionary (a string, or nothing at all).
\<close>

datatype transform_result =
    TransformDict transform_dict
  | TransformLegacy "string option"

record approved_rule =
  ar_rule_path :: string
  ar_description :: string

record approved_json =
  approved_rules :: "approved_rule list"
  source_standard :: json

text \<open>
  The collaborators of the service: text extraction and the three oracle operations.
  Each is called at most once in a run of \<open>apply\<close>, so a function of the arguments
  stands for the answer of that call.
\<close>

record oracle_client =
  extract_text :: "bytes \<Rightarrow> string \<Rightarrow> string"
  analyze_compatibility :: "json \<Rightarrow> string \<Rightarrow> compatibility"
  select_rules :: "json \<Rightarrow> real \<Rightarrow> selection"
  transform_document :: "string \<Rightarrow> approved_json \<Rightarrow> string \<Rightarrow> transform_result"

text \<open>The calls a run makes on its collaborators, in order.\<close>

datatype oracle_call =
    CallExtractText bytes string
  | CallAnalyzeCompatibility json string
  | CallSelectRules json real
  | CallTransformDocument string approved_json string

subsection \<open>analyze\<close>

text \<open>
  What \<open>analyze\<close> returns: \<open>{"error": "Could not extract text from document"}\<close>, the
  compatibility dictionary itself when it holds an \<open>error\<close> key, or the dictionary with
  \<open>text\<close>, \<open>compatibility\<close>, \<open>score\<close> and \<open>risk\<close>.
\<close>

datatype analyze_result =
    ExtractFailed
  | CompatFailed compatibility
  | Analyzed string compatibility real string

definition analyze ::
  "oracle_client \<Rightarrow> bytes \<Rightarrow> string \<Rightarrow> json \<Rightarrow> analyze_result \<times> oracle_call list" where
  "analyze orc file_content filename standard_json =
     (let text = extract_text orc file_content filename;
          calls = [CallExtractText file_content filename]
      in if text = [] then (ExtractFailed, calls)
         else
           let compatibility = analyze_compatibility orc standard_json text;
               calls = calls @ [CallAnalyzeCompatibility standard_json text]
           in if c_error compatibility \<noteq> None then (CompatFailed compatibility, calls)
              else (Analyzed text compatibility
                      (get_or (total_score compatibility) 0)
                      (get_or (risk_classification compatibility) ''LOW''), calls))"

subsection \<open>apply\<close>

record caution =
  w_rule_path :: string
  w_description :: string
  w_message :: string

record rule_selection_report =
  safe_rules :: "rule list"
  conditional_rules :: "rule list"
  forbidden_rules :: "rule list"

record decision_report =
  action :: string
  compatibility_of :: compatibility
  score :: real
  risk :: string
  rule_selection :: rule_selection_report
  caution_warnings :: "caution list"
  transformed_content :: "string option"
  original_content :: string
  filename_of :: string
  deviations :: "deviation list"
  preserved_items :: "string list"
  change_summary :: string

text \<open>
  What \<open>apply\<close> returns: the failed analysis as it is; the analysis extended with
  \<open>"rule_selection": None\<close> and the selection's error; or the full decision report, the
  only one of the three without an \<open>error\<close> key.
\<close>

datatype apply_result =
    AnalysisFailed analyze_result
  | SelectionFailed string compatibility real string string
  | Decision decision_report

definition has_error_key :: "apply_result \<Rightarrow> bool" where
  "has_error_key r = (case r of Decision _ \<Rightarrow> False | _ \<Rightarrow> True)"

definition caution_of :: "rule \<Rightarrow> caution" where
  "caution_of r =
     \<lparr>w_rule_path = get_or (rule_path r) '''',
      w_description = get_or (description r) '''',
      w_message = ''Applied with caution - review required''\<rparr>"

definition approved_entry :: "rule \<Rightarrow> approved_rule" where
  "approved_entry r =
     \<lparr>ar_rule_path = get_or (rule_path r) '''', ar_description = get_or (description r) ''''\<rparr>"

text \<open>
  The tier of \<open>apply\<close> ("Build approved rules based on compatibility tier"): the action,
  the approved rules and the warnings for a score. The message of a warning has a dash
  outside ASCII in the source; it is written \<open>-\<close> here.
\<close>

definition build_approved ::
  "real \<Rightarrow> rule list \<Rightarrow> rule list \<Rightarrow> string \<times> rule list \<times> caution list" where
  "build_approved sc safe conditional =
     (if sc \<ge> 75 then (''safe_apply'', safe @ conditional, [])
      else if sc \<ge> 40 then
        (let approved = safe;
             warnings = map caution_of conditional;
             approved = approved @ conditional
         in (''selective_apply'', approved, warnings))
      else (''report_only'', [], []))"

text \<open>
  The "check for failure" of \<open>apply\<close>: a non-empty text that contains \<open>failed\<close> in any
  case and is shorter than 200 characters is dropped.
\<close>

definition check_failure :: "string option \<Rightarrow> string option" where
  "check_failure transformed =
     (case transformed of
        None \<Rightarrow> None
      | Some t \<Rightarrow>
          if t \<noteq> [] \<and> str_contains (lower t) ''failed'' \<and> length t < 200 then None
          else Some t)"

definition apply_flow ::
  "oracle_client \<Rightarrow> bytes \<Rightarrow> string \<Rightarrow> json \<Rightarrow> string \<Rightarrow> apply_result \<times> oracle_call list" where
  "apply_flow orc file_content filename standard_json competence_level =
     (case analyze orc file_content filename standard_json of
        (ExtractFailed, calls) \<Rightarrow> (AnalysisFailed ExtractFailed, calls)
      | (CompatFailed c, calls) \<Rightarrow> (AnalysisFailed (CompatFailed c), calls)
      | (Analyzed text cpt sc rk, calls) \<Rightarrow>
          let selected = select_rules orc standard_json sc;
              calls = calls @ [CallSelectRules standard_json sc]
          in case sel_error selected of
               Some e \<Rightarrow> (SelectionFailed text cpt sc rk e, calls)
             | None \<Rightarrow>
                 let safe = get_or (sel_safe_rules selected) [];
                     conditional = get_or (sel_conditional_rules selected) [];
                     forbidden = get_or (sel_forbidden_rules selected) []
                 in case build_approved sc safe conditional of
                      (act, approved, warnings) \<Rightarrow>
                        let report =
                              \<lparr>action = act, compatibility_of = cpt, score = sc, risk = rk,
                               rule_selection =
                                 \<lparr>safe_rules = safe, conditional_rules = conditional,
                                  forbidden_rules = forbidden\<rparr>,
                               caution_warnings = warnings,
                               transformed_content = None,
                               original_content = text, filename_of = filename,
                               deviations = [], preserved_items = [], change_summary = ''''\<rparr>
                        in if act \<noteq> ''report_only'' \<and> approved \<noteq> [] then
                             let approved_js =
                                   \<lparr>approved_rules = map approved_entry approved,
                                    source_standard = standard_json\<rparr>;
                                 calls = calls @
                                   [CallTransformDocument text approved_js competence_level]
                             in case transform_document orc text approved_js competence_level of
                                  TransformDict d \<Rightarrow>
                                    (Decision (report
                                       \<lparr>transformed_content :=
                                          check_failure (Some (get_or (transformed_text d) '''')),
                                        deviations := get_or (t_deviations d) [],
                                        preserved_items := get_or (t_preserved_items d) [],
                                        change_summary := get_or (t_change_summary d) ''''\<rparr>),
                                     calls)
                                | TransformLegacy t \<Rightarrow>
                                    (Decision (report \<lparr>transformed_content := check_failure t\<rparr>),
                                     calls)
                           else (Decision report, calls))"

subsection \<open>What a run passes to the transform phase\<close>

fun approved_sent :: "oracle_call \<Rightarrow> approved_rule list option" where
  "approved_sent (CallTransformDocument t a l) = Some (approved_rules a)"
| "approved_sent _ = None"

text \<open>The approved sets of the transform calls of a run, in order.\<close>

definition transform_calls :: "oracle_call list \<Rightarrow> approved_rule list list" where
  "transform_calls cs = List.map_filter approved_sent cs"

subsection \<open>A concrete client\<close>

text \<open>
  A client whose answers are fixed: the text of a \<open>.txt\<close> file is its content, the
  compatibility analysis answers with the given score, rule selection with the given
  selection and the transform phase with the given result.
\<close>

definition fixed_oracle :: "real \<Rightarrow> selection \<Rightarrow> transform_result \<Rightarrow> oracle_client" where
  "fixed_oracle sc sel tr =
     \<lparr>extract_text = (\<lambda>b f. b),
      analyze_compatibility = (\<lambda>s t.
        \<lparr>c_error = None, total_score = Some sc, risk_classification = Some ''MEDIUM'',
         dimensions = [], target_document_type = None, reasoning = None\<rparr>),
      select_rules = (\<lambda>s x. sel),
      transform_document = (\<lambda>t a l. tr)\<rparr>"

definition rule_a :: rule where
  "rule_a = \<lparr>rule_path = Some ''formatting.heading_style'',
             description = Some ''Heading style'', justification = None\<rparr>"

definition rule_b :: rule where
  "rule_b = \<lparr>rule_path = Some ''language.modal_verbs'',
             description = Some ''Modal verbs'', justification = None\<rparr>"

definition rule_c :: rule where
  "rule_c = \<lparr>rule_path = Some ''metadata.authority'',
             description = Some ''Authority'', justification = None\<rparr>"

definition sel_demo :: selection where
  "sel_demo =
     \<lparr>sel_error = None, sel_safe_rules = Some [rule_a],
      sel_conditional_rules = Some [rule_b], sel_forbidden_rules = Some [rule_c]\<rparr>"

text \<open>A selection that lists one rule as safe and as forbidden.\<close>

definition sel_overlap :: selection where
  "sel_overlap =
     \<lparr>sel_error = None, sel_safe_rules = Some [rule_a],
      sel_conditional_rules = Some [], sel_forbidden_rules = Some [rule_a]\<rparr>"

definition tr_ok :: transform_result where
  "tr_ok = TransformDict
     \<lparr>transformed_text = Some ''# Title'', t_deviations = Some [],
      t_preserved_items = None, t_change_summary = Some ''none'', t_error = None\<rparr>"

definition tr_failed :: transform_result where
  "tr_failed = TransformDict
     \<lparr>transformed_text = Some ''Transformation failed'', t_deviations = Some [],
      t_preserved_items = None, t_change_summary = Some ''none'', t_error = None\<rparr>"

lemmas demo_defs = fixed_oracle_def sel_demo_def sel_overlap_def tr_ok_def tr_failed_def
  rule_a_def rule_b_def rule_c_def

subsection \<open>Gating by score\<close>

lemma transform_calls_append:
  "transform_calls (xs @ ys) = transform_calls xs @ transform_calls ys"
  by (simp add: transform_calls_def List.map_filter_def)

lemma analyze_no_transform:
  "analyze orc fc fname std = (r, calls) \<Longrightarrow> transform_calls calls = []"
  by (auto simp: analyze_def Let_def transform_calls_def List.map_filter_def split: if_splits)

text \<open>
  Claim C1, as the code has it. When analysis and rule selection succeed, \<open>apply\<close>
  returns the decision report, and the score alone fixes the tier: from 75 the action is
  \<open>safe_apply\<close>, the approved set is the safe rules followed by the conditional rules
  and there is no warning; from 40 below 75 the action is \<open>selective_apply\<close>, the
  approved set is the same and there is one warning per conditional rule, in order; below
  40 the action is \<open>report_only\<close>, the approved set is empty, no transform call is made
  and \<open>transformed_content\<close> is \<open>None\<close>. The transform phase is called at most once,
  with the approved set (each rule cut down to its path and description), and only when
  that set is not empty. The forbidden rules go to the report only: every approved rule
  is one of the safe or conditional rules, so a forbidden rule is approved only if the
  selection lists it among those too.
\<close>

theorem apply_flow_gating:
  assumes an: "analyze orc fc fname std = (Analyzed text cpt sc rk, calls)"
    and sel: "sel_error (select_rules orc std sc) = None"
    and safe: "safe = get_or (sel_safe_rules (select_rules orc std sc)) []"
    and cond: "cond = get_or (sel_conditional_rules (select_rules orc std sc)) []"
    and forb: "forb = get_or (sel_forbidden_rules (select_rules orc std sc)) []"
  shows "\<exists>rep calls' approved.
      apply_flow orc fc fname std lvl = (Decision rep, calls') \<and>
      build_approved sc safe cond = (action rep, approved, caution_warnings rep) \<and>
      action rep = (if 75 \<le> sc then ''safe_apply''
                    else if 40 \<le> sc then ''selective_apply'' else ''report_only'') \<and>
      approved = (if 40 \<le> sc then safe @ cond else []) \<and>
      caution_warnings rep = (if 40 \<le> sc \<and> sc < 75 then map caution_of cond else []) \<and>
      transform_calls calls' = (if approved = [] then [] else [map approved_entry approved]) \<and>
      (sc < 40 \<longrightarrow> transformed_content rep = None \<and> transform_calls calls' = []) \<and>
      forbidden_rules (rule_selection rep) = forb \<and>
      set approved \<subseteq> set safe \<union> set cond \<and>
      (set forb \<inter> (set safe \<union> set cond) = {} \<longrightarrow> set forb \<inter> set approved = {})"
proof -
  have nt: "transform_calls calls = []"
    using an by (rule analyze_no_transform)
  show ?thesis
    using an sel nt
    by (auto simp: apply_flow_def Let_def build_approved_def transform_calls_append
          safe cond forb transform_calls_def List.map_filter_def
        split: transform_result.splits)
qed

theorem apply_flow_gating_witness:
  "\<exists>rep calls' approved.
      apply_flow (fixed_oracle 74 sel_demo tr_ok) ''hello'' ''a.txt'' (JObj []) ''general''
        = (Decision rep, calls') \<and>
      action rep = ''selective_apply'' \<and>
      approved = [rule_a, rule_b] \<and>
      caution_warnings rep = [caution_of rule_b] \<and>
      transform_calls calls' = [[approved_entry rule_a, approved_entry rule_b]] \<and>
      forbidden_rules (rule_selection rep) = [rule_c] \<and>
      set [rule_c] \<inter> set approved = {}"
  using apply_flow_gating [of "fixed_oracle 74 sel_demo tr_ok" "''hello''" "''a.txt''" "JObj []"
      "''hello''" "analyze_compatibility (fixed_oracle 74 sel_demo tr_ok) (JObj []) ''hello''"
      74 "''MEDIUM''"
      "[CallExtractText ''hello'' ''a.txt'', CallAnalyzeCompatibility (JObj []) ''hello'']"
      "[rule_a]" "[rule_b]" "[rule_c]" "''general''"]
  by (auto simp: analyze_def Let_def get_or_def demo_defs)

text \<open>
  Claim C1 as stated fails where the selection lists a rule as safe and as forbidden:
  at score 80 the rule is in the forbidden rules of the report and in the approved set
  passed to the transform phase.
\<close>

theorem forbidden_rule_approved_counterexample:
  "(case apply_flow (fixed_oracle 80 sel_overlap tr_ok) ''hello'' ''a.txt'' (JObj []) ''general'' of
      (Decision rep, calls) \<Rightarrow>
         rule_a \<in> set (forbidden_rules (rule_selection rep)) \<and>
         transform_calls calls = [[approved_entry rule_a]] \<and>
         build_approved (score rep) (safe_rules (rule_selection rep))
           (conditional_rules (rule_selection rep)) = (''safe_apply'', [rule_a], [])
    | _ \<Rightarrow> False)"
  by (simp add: apply_flow_def analyze_def Let_def get_or_def build_approved_def demo_defs
        transform_calls_def List.map_filter_def check_failure_def)

subsection \<open>A failed transform\<close>

text \<open>
  Claim C8, as the code has it. When the transform phase runs and its text (the
  \<open>transformed_text\<close> of a dictionary, or a legacy string) is not empty, contains
  \<open>failed\<close> in any case and is shorter than 200 characters, \<open>apply\<close> returns the
  decision report with \<open>transformed_content\<close> set to \<open>None\<close>. The report has no
  \<open>error\<close> key: the dropped content is the only sign of the failure. Action,
  compatibility, score, risk, rule selection and warnings are the ones computed before
  the transform phase.
\<close>

theorem failed_transform:
  assumes an: "analyze orc fc fname std = (Analyzed text cpt sc rk, calls)"
    and sel: "sel_error (select_rules orc std sc) = None"
    and safe: "safe = get_or (sel_safe_rules (select_rules orc std sc)) []"
    and cond: "cond = get_or (sel_conditional_rules (select_rules orc std sc)) []"
    and forb: "forb = get_or (sel_forbidden_rules (select_rules orc std sc)) []"
    and gate: "40 \<le> sc" "safe @ cond \<noteq> []"
    and tr: "transform_document orc text
               \<lparr>approved_rules = map approved_entry (safe @ cond), source_standard = std\<rparr> lvl
             = TransformDict d \<and> t = get_or (transformed_text d) [] \<or>
             transform_document orc text
               \<lparr>approved_rules = map approved_entry (safe @ cond), source_standard = std\<rparr> lvl
             = TransformLegacy (Some t)"
    and short: "t \<noteq> []" "str_contains (lower t) ''failed''" "length t < 200"
  shows "\<exists>rep calls'.
      apply_flow orc fc fname std lvl = (Decision rep, calls') \<and>
      transformed_content rep = None \<and>
      \<not> has_error_key (Decision rep) \<and>
      action rep = fst (build_approved sc safe cond) \<and>
      compatibility_of rep = cpt \<and> score rep = sc \<and> risk rep = rk \<and>
      rule_selection rep =
        \<lparr>safe_rules = safe, conditional_rules = cond, forbidden_rules = forb\<rparr> \<and>
      caution_warnings rep = snd (snd (build_approved sc safe cond))"
  using an sel gate tr short
  by (auto simp: apply_flow_def Let_def build_approved_def safe cond forb check_failure_def
        has_error_key_def)

theorem failed_transform_witness:
  "\<exists>rep calls'.
      apply_flow (fixed_oracle 74 sel_demo tr_failed) ''hello'' ''a.txt'' (JObj []) ''general''
        = (Decision rep, calls') \<and>
      transformed_content rep = None \<and>
      \<not> has_error_key (Decision rep) \<and>
      action rep = ''selective_apply'' \<and>
      score rep = 74 \<and> risk rep = ''MEDIUM'' \<and>
      rule_selection rep =
        \<lparr>safe_rules = [rule_a], conditional_rules = [rule_b], forbidden_rules = [rule_c]\<rparr> \<and>
      caution_warnings rep = [caution_of rule_b]"
  using failed_transform [of "fixed_oracle 74 sel_demo tr_failed" "''hello''" "''a.txt''" "JObj []"
      "''hello''" "analyze_compatibility (fixed_oracle 74 sel_demo tr_failed) (JObj []) ''hello''"
      74 "''MEDIUM''"
      "[CallExtractText ''hello'' ''a.txt'', CallAnalyzeCompatibility (JObj []) ''hello'']"
      "[rule_a]" "[rule_b]" "[rule_c]" "''general''"
      "\<lparr>transformed_text = Some ''Transformation failed'', t_deviations = Some [],
        t_preserved_items = None, t_change_summary = Some ''none'', t_error = None\<rparr>"
      "''Transformation failed''"]
  by (auto simp: analyze_def Let_def get_or_def demo_defs build_approved_def lower_def
        lower_char_def startswith_def)

text \<open>
  Claim C8 as stated fails on the error: the transform phase answers
  \<open>Transformation failed\<close>, the content is dropped, and the returned report has no
  \<open>error\<close> key.
\<close>

theorem failed_transform_no_error_counterexample:
  "(case apply_flow (fixed_oracle 74 sel_demo tr_failed) ''hello'' ''a.txt'' (JObj []) ''general'' of
      (r, calls) \<Rightarrow> \<not> has_error_key r \<and> transform_calls calls \<noteq> [] \<and>
        (case r of Decision rep \<Rightarrow> transformed_content rep = None | _ \<Rightarrow> False))"
  by (simp add: apply_flow_def analyze_def Let_def get_or_def build_approved_def demo_defs
        transform_calls_def List.map_filter_def check_failure_def has_error_key_def
        lower_def lower_char_def startswith_def)

section \<open>Persisted entities (models)\<close>

text \<open>
  The tables of the persistence layer. A primary key (a UUID) is a number; each table
  with a primary-key lookup (\<open>db.get\<close>) is a map from the key to the row. The
  assignment table is read by \<open>select ... where\<close>, so it is the list of its rows in
  the order a query returns them; the surrogate key and the timestamps of a row, which
  no operation below reads, are left out.
\<close>

type_synonym uuid = nat

datatype TargetType = FOLDER | DOCUMENT

record StandardVersion =
  standard_id :: uuid
  version_number :: int
  rules_json :: json
  is_active :: bool

record StandardAssignment =
  target_id :: uuid
  target_type :: TargetType
  standard_version_id :: uuid

record Folder =
  name :: string
  parent_id :: "uuid option"

record Document =
  filename :: string
  minio_version_id :: "string option"
  hash :: string
  folder_id :: "uuid option"

record database =
  assignments :: "StandardAssignment list"
  folders :: "uuid \<rightharpoonup> Folder"
  documents :: "uuid \<rightharpoonup> Document"
  versions :: "uuid \<rightharpoonup> StandardVersion"

section \<open>Inheritance resolver (inheritance\_service.py)\<close>

text \<open>
  \<open>select(StandardAssignment).where(target_id == .., target_type == ..)\<close> followed by
  \<open>.scalars().first()\<close>: the first matching row, if any.
\<close>

definition select_assignment :: "database \<Rightarrow> uuid \<Rightarrow> TargetType \<Rightarrow> StandardAssignment option" where
  "select_assignment db tid tt =
     find (\<lambda>a. target_id a = tid \<and> target_type a = tt) (assignments db)"

text \<open>
  The \<open>while current_folder_id\<close> loop. It has no bound and keeps no set of visited
  folders, so it is a partial function: the outer \<open>None\<close> is a walk that never
  returns, \<open>Some None\<close> is the result \<open>None\<close> of the resolver.
  A UUID is always true, so the loop test is the test for \<open>None\<close>.
\<close>

partial_function (option) ancestor_walk ::
  "database \<Rightarrow> uuid option \<Rightarrow> StandardVersion option option" where
  "ancestor_walk db current_folder_id =
     (case current_folder_id of
        None \<Rightarrow> Some None
      | Some fid \<Rightarrow>
          (case select_assignment db fid FOLDER of
             Some assignment \<Rightarrow> Some (versions db (standard_version_id assignment))
           | None \<Rightarrow>
               (case folders db fid of
                  None \<Rightarrow> Some None
                | Some folder \<Rightarrow> ancestor_walk db (parent_id folder))))"

declare ancestor_walk.simps [code]

text \<open>
  The folder the walk starts from: \<open>doc.folder_id\<close> of a document, \<open>folder.parent_id\<close>
  of a folder, nothing when the row does not exist.
\<close>

definition immediate_folder :: "database \<Rightarrow> uuid \<Rightarrow> TargetType \<Rightarrow> uuid option" where
  "immediate_folder db tid tt =
     (case tt of
        DOCUMENT \<Rightarrow> (case documents db tid of None \<Rightarrow> None | Some doc \<Rightarrow> folder_id doc)
      | FOLDER \<Rightarrow> (case folders db tid of None \<Rightarrow> None | Some folder \<Rightarrow> parent_id folder))"

definition get_effective_standard_version ::
  "database \<Rightarrow> uuid \<Rightarrow> TargetType \<Rightarrow> StandardVersion option option" where
  "get_effective_standard_version db tid tt =
     (case select_assignment db tid tt of
        Some assignment \<Rightarrow> Some (versions db (standard_version_id assignment))
      | None \<Rightarrow> ancestor_walk db (immediate_folder db tid tt))"

subsection \<open>Ancestor chains\<close>

text \<open>
  \<open>is_chain db start fs\<close>: the folders \<open>fs\<close> are the whole ancestor chain from
  \<open>start\<close>, each the parent of the one before, the last one a root (or an id without a
  row). Such a list exists exactly when the chain is finite, as it is in a tree.
\<close>

definition parent_of :: "database \<Rightarrow> uuid \<Rightarrow> uuid option" where
  "parent_of db fid = (case folders db fid of None \<Rightarrow> None | Some folder \<Rightarrow> parent_id folder)"

fun is_chain :: "database \<Rightarrow> uuid option \<Rightarrow> uuid list \<Rightarrow> bool" where
  "is_chain db None fs = (fs = [])"
| "is_chain db (Some f) [] = False"
| "is_chain db (Some f) (g # gs) = (g = f \<and> is_chain db (parent_of db f) gs)"

text \<open>The assignment of the first folder of a chain that has one.\<close>

definition nearest_assignment :: "database \<Rightarrow> uuid list \<Rightarrow> StandardAssignment option" where
  "nearest_assignment db fs =
     (case find (\<lambda>f. select_assignment db f FOLDER \<noteq> None) fs of
        None \<Rightarrow> None
      | Some f \<Rightarrow> select_assignment db f FOLDER)"

definition version_of :: "database \<Rightarrow> StandardAssignment option \<Rightarrow> StandardVersion option" where
  "version_of db assignment =
     (case assignment of None \<Rightarrow> None | Some a \<Rightarrow> versions db (standard_version_id a))"

text \<open>
  \<open>stops_within n db start\<close>: within \<open>n\<close> steps the walk from \<open>start\<close> reaches a
  folder with an assignment, an id without a row, or the parent of a root.
\<close>

fun stops_within :: "nat \<Rightarrow> database \<Rightarrow> uuid option \<Rightarrow> bool" where
  "stops_within n db None = True"
| "stops_within 0 db (Some f) = False"
| "stops_within (Suc n) db (Some f) =
     (select_assignment db f FOLDER \<noteq> None \<or> folders db f = None \<or>
      stops_within n db (parent_of db f))"

subsection \<open>Three folder tables\<close>

text \<open>
  Folder 1 is a root with an assignment to version 10, folder 2 is its subfolder without
  one, document 7 is in folder 2.
\<close>

definition db_tree :: database where
  "db_tree =
     \<lparr>assignments = [\<lparr>target_id = 1, target_type = FOLDER, standard_version_id = 10\<rparr>],
      folders = [1 \<mapsto> \<lparr>name = ''F'', parent_id = None\<rparr>,
                 2 \<mapsto> \<lparr>name = ''sub'', parent_id = Some 1\<rparr>],
      documents = [7 \<mapsto> \<lparr>filename = ''d.odt'', minio_version_id = None, hash = ''h'',
                           folder_id = Some 2\<rparr>],
      versions = [10 \<mapsto> \<lparr>standard_id = 100, version_number = 1, rules_json = JObj [],
                            is_active = True\<rparr>]\<rparr>"

text \<open>
  A table with three rows. Folder 1 is a root with an assignment to version 10; a
  document that happens to share the id 1 has one to version 30, and its row comes
  first. Folder 2 is a subfolder of folder 1 and folder 3 is another root, both without
  an assignment. Documents 7 and 8 are in folder 2, and document 8 has an assignment of
  its own, to version 20. Documents 1 and 9 are in folder 3.
\<close>

definition db_shared :: database where
  "db_shared =
     \<lparr>assignments =
        [\<lparr>target_id = 1, target_type = DOCUMENT, standard_version_id = 30\<rparr>,
         \<lparr>target_id = 1, target_type = FOLDER, standard_version_id = 10\<rparr>,
         \<lparr>target_id = 8, target_type = DOCUMENT, standard_version_id = 20\<rparr>],
      folders = [1 \<mapsto> \<lparr>name = ''F'', parent_id = None\<rparr>,
                 2 \<mapsto> \<lparr>name = ''sub'', parent_id = Some 1\<rparr>,
                 3 \<mapsto> \<lparr>name = ''G'', parent_id = None\<rparr>],
      documents = [1 \<mapsto> \<lparr>filename = ''a.odt'', minio_version_id = None, hash = ''h1'',
                           folder_id = Some 3\<rparr>,
                   7 \<mapsto> \<lparr>filename = ''b.odt'', minio_version_id = None, hash = ''h7'',
                           folder_id = Some 2\<rparr>,
                   8 \<mapsto> \<lparr>filename = ''c.odt'', minio_version_id = None, hash = ''h8'',
                           folder_id = Some 2\<rparr>,
                   9 \<mapsto> \<lparr>filename = ''d.odt'', minio_version_id = None, hash = ''h9'',
                           folder_id = Some 3\<rparr>],
      versions = [10 \<mapsto> \<lparr>standard_id = 100, version_number = 1, rules_json = JObj [],
                            is_active = True\<rparr>,
                  20 \<mapsto> \<lparr>standard_id = 100, version_number = 2, rules_json = JObj [],
                            is_active = True\<rparr>,
                  30 \<mapsto> \<lparr>standard_id = 200, version_number = 1, rules_json = JObj [],
                            is_active = True\<rparr>]\<rparr>"

text \<open>Folders 1 and 2 are each other's parent; nothing is assigned; document 7 is in folder 1.\<close>

definition db_cycle :: database where
  "db_cycle =
     \<lparr>assignments = [],
      folders = [1 \<mapsto> \<lparr>name = ''a'', parent_id = Some 2\<rparr>,
                 2 \<mapsto> \<lparr>name = ''b'', parent_id = Some 1\<rparr>],
      documents = [7 \<mapsto> \<lparr>filename = ''d.odt'', minio_version_id = None, hash = ''h'',
                           folder_id = Some 1\<rparr>],
      versions = Map.empty\<rparr>"

subsection \<open>The walk\<close>

lemma walk_chain:
  "is_chain db cur fs \<Longrightarrow>
   ancestor_walk db cur =
     Some (case nearest_assignment db fs of
             None \<Rightarrow> None
           | Some a \<Rightarrow> versions db (standard_version_id a))"
proof (induction db cur fs rule: is_chain.induct)
  case (1 db fs)
  then show ?case by (simp add: ancestor_walk.simps nearest_assignment_def)
next
  case (2 db f)
  then show ?case by simp
next
  case (3 db f g gs)
  then show ?case
    by (subst ancestor_walk.simps)
       (auto simp: nearest_assignment_def parent_of_def split: option.splits)
qed

lemma walk_stops: "stops_within n db cur \<Longrightarrow> \<exists>r. ancestor_walk db cur = Some r"
proof (induction n db cur rule: stops_within.induct)
  case (1 n db)
  then show ?case by (simp add: ancestor_walk.simps)
next
  case (2 db f)
  then show ?case by simp
next
  case (3 n db f)
  then show ?case
    by (subst ancestor_walk.simps) (auto simp: parent_of_def split: option.splits)
qed

lemma stops_walk:
  assumes run: "ancestor_walk db cur = Some r"
  shows "\<exists>n. stops_within n db cur"
proof (rule ancestor_walk.raw_induct
    [where P = "\<lambda>d c y. \<exists>n. stops_within n d c", OF _ run], goal_cases)
  case (1 walk d c y)
  show ?case
  proof (cases c)
    case None
    then show ?thesis by simp
  next
    case (Some f)
    show ?thesis
    proof (cases "select_assignment d f FOLDER \<noteq> None \<or> folders d f = None")
      case True
      then have "stops_within (Suc 0) d (Some f)" by auto
      with Some show ?thesis by blast
    next
      case False
      then obtain folder where fo: "folders d f = Some folder" by auto
      with False Some 1(2) have "walk d (parent_id folder) = Some y" by simp
      then obtain n where "stops_within n d (parent_id folder)" using 1(1) by blast
      with fo have "stops_within (Suc n) d (Some f)" by (simp add: parent_of_def)
      with Some show ?thesis by blast
    qed
  qed
qed

lemma cycle_never_stops:
  "\<not> stops_within n db_cycle (Some 1) \<and> \<not> stops_within n db_cycle (Some 2)"
  by (induction n) (simp_all add: db_cycle_def select_assignment_def parent_of_def)

text \<open>
  In a folder table without a cycle (the parent relation is well-founded) every start has
  its chain.
\<close>

lemma tree_has_chain:
  assumes "wf {(p, c). parent_of db c = Some p}"
  shows "\<exists>fs. is_chain db cur fs"
proof (cases cur)
  case None
  then show ?thesis by simp
next
  case (Some f)
  have "\<exists>fs. is_chain db (Some g) fs" for g
    using assms
  proof (induction g rule: wf_induct_rule)
    case (less g)
    show ?case
    proof (cases "parent_of db g")
      case None
      then have "is_chain db (Some g) [g]" by simp
      then show ?thesis by blast
    next
      case (Some p)
      then obtain fs where "is_chain db (Some p) fs" using less by auto
      with Some have "is_chain db (Some g) (g # fs)" by simp
      then show ?thesis by blast
    qed
  qed
  with Some show ?thesis by simp
qed

lemma nearest_None:
  "nearest_assignment db fs = None \<longleftrightarrow> list_all (\<lambda>f. select_assignment db f FOLDER = None) fs"
  by (induction fs) (auto simp: nearest_assignment_def)

lemma nearest_Some:
  "nearest_assignment db fs = Some a \<Longrightarrow>
     \<exists>pre f post. fs = pre @ f # post \<and>
       list_all (\<lambda>g. select_assignment db g FOLDER = None) pre \<and>
       select_assignment db f FOLDER = Some a"
proof (induction fs)
  case Nil
  then show ?case by (simp add: nearest_assignment_def)
next
  case (Cons g gs)
  show ?case
  proof (cases "select_assignment db g FOLDER")
    case None
    with Cons.prems have "nearest_assignment db gs = Some a"
      by (simp add: nearest_assignment_def)
    then obtain pre f post where
      "gs = pre @ f # post" "list_all (\<lambda>g. select_assignment db g FOLDER = None) pre"
      "select_assignment db f FOLDER = Some a"
      using Cons.IH by blast
    with None have "g # gs = (g # pre) @ f # post \<and>
        list_all (\<lambda>g. select_assignment db g FOLDER = None) (g # pre) \<and>
        select_assignment db f FOLDER = Some a" by simp
    then show ?thesis by blast
  next
    case (Some b)
    with Cons.prems have "b = a" by (simp add: nearest_assignment_def)
    with Some have "g # gs = [] @ g # gs \<and>
        list_all (\<lambda>g. select_assignment db g FOLDER = None) [] \<and>
        select_assignment db g FOLDER = Some a" by simp
    then show ?thesis by blast
  qed
qed

lemma select_assignment_in:
  "select_assignment db tid tt = Some a \<Longrightarrow>
     a \<in> set (assignments db) \<and> target_id a = tid \<and> target_type a = tt"
  unfolding select_assignment_def by (auto simp: find_Some_iff)

lemma find_skip:
  "\<forall>x\<in>set pre. \<not> P x \<Longrightarrow> find P (pre @ xs) = find P xs"
  by (induction pre) auto

lemma select_assignment_first:
  assumes "assignments db = pre @ a # post"
    and "target_id a = t" and "target_type a = ty"
    and "\<forall>x\<in>set pre. \<not> (target_id x = t \<and> target_type x = ty)"
  shows "select_assignment db t ty = Some a"
  using assms by (simp add: select_assignment_def find_skip)

lemma select_assignment_None_iff:
  "select_assignment db t ty = None \<longleftrightarrow>
     (\<forall>x\<in>set (assignments db). \<not> (target_id x = t \<and> target_type x = ty))"
  by (auto simp: select_assignment_def find_None_iff)

lemma nearest_skip:
  assumes "\<forall>g\<in>set pre. select_assignment db g FOLDER = None"
  shows "nearest_assignment db (pre @ fs) = nearest_assignment db fs"
  using assms by (simp add: nearest_assignment_def find_skip)

lemma nearest_here:
  "select_assignment db f FOLDER = Some a \<Longrightarrow> nearest_assignment db (f # fs) = Some a"
  by (simp add: nearest_assignment_def)

text \<open>
  Claim C2. Let \<open>start\<close> be the folder of the target (the \<open>folder_id\<close> of a document,
  the \<open>parent_id\<close> of a folder) and \<open>fs\<close> the ancestor chain from there up to the
  root. The statement speaks of the rows of the assignment table only.
  \<^item> When the table holds a row for the target's id and type, the resolver returns the
    version of the first such row, whatever the ancestors have.
  \<^item> When it holds none, and \<open>f\<close> is the first folder of the chain for which the table
    holds a row of type \<open>FOLDER\<close>, the resolver returns the version of the first such
    row of \<open>f\<close>.
  \<^item> When it holds no row for the target and no \<open>FOLDER\<close> row for any folder of the
    chain, the resolver returns \<open>None\<close>.
  \<^item> When every row refers to a version that exists (the foreign key of the table),
    the resolver returns \<open>None\<close> in that case only.
\<close>

theorem resolve_nearest_ancestor:
  assumes doc: "tt = DOCUMENT \<Longrightarrow>
                  start = (case documents db tid of None \<Rightarrow> None | Some d \<Rightarrow> folder_id d)"
    and fol: "tt = FOLDER \<Longrightarrow>
                  start = (case folders db tid of None \<Rightarrow> None | Some f \<Rightarrow> parent_id f)"
    and chain: "is_chain db start fs"
  shows "(assignments db = pre @ a # post \<and>
          target_id a = tid \<and> target_type a = tt \<and>
          (\<forall>x\<in>set pre. \<not> (target_id x = tid \<and> target_type x = tt))
          \<longrightarrow> get_effective_standard_version db tid tt =
                Some (versions db (standard_version_id a))) \<and>
         ((\<forall>x\<in>set (assignments db). \<not> (target_id x = tid \<and> target_type x = tt)) \<and>
          fs = nearer @ f # farther \<and>
          (\<forall>g\<in>set nearer. \<forall>x\<in>set (assignments db).
              \<not> (target_id x = g \<and> target_type x = FOLDER)) \<and>
          assignments db = pre' @ b # post' \<and>
          target_id b = f \<and> target_type b = FOLDER \<and>
          (\<forall>x\<in>set pre'. \<not> (target_id x = f \<and> target_type x = FOLDER))
          \<longrightarrow> get_effective_standard_version db tid tt =
                Some (versions db (standard_version_id b))) \<and>
         ((\<forall>x\<in>set (assignments db). \<not> (target_id x = tid \<and> target_type x = tt)) \<and>
          (\<forall>g\<in>set fs. \<forall>x\<in>set (assignments db).
              \<not> (target_id x = g \<and> target_type x = FOLDER))
          \<longrightarrow> get_effective_standard_version db tid tt = Some None) \<and>
         ((\<forall>x\<in>set (assignments db). versions db (standard_version_id x) \<noteq> None)
          \<longrightarrow> (get_effective_standard_version db tid tt = Some None \<longleftrightarrow>
                 (\<forall>x\<in>set (assignments db). \<not> (target_id x = tid \<and> target_type x = tt)) \<and>
                 (\<forall>g\<in>set fs. \<forall>x\<in>set (assignments db).
                     \<not> (target_id x = g \<and> target_type x = FOLDER))))"
proof -
  have start: "immediate_folder db tid tt = start"
    using doc fol by (cases tt) (simp_all add: immediate_folder_def)
  have res: "get_effective_standard_version db tid tt =
           Some (case select_assignment db tid tt of
                   Some a \<Rightarrow> versions db (standard_version_id a)
                 | None \<Rightarrow> version_of db (nearest_assignment db fs))"
    using walk_chain [OF chain]
    by (simp add: get_effective_standard_version_def start version_of_def split: option.splits)
  have own: "get_effective_standard_version db tid tt = Some (versions db (standard_version_id a))"
    if "assignments db = pre @ a # post" "target_id a = tid" "target_type a = tt"
      "\<forall>x\<in>set pre. \<not> (target_id x = tid \<and> target_type x = tt)"
    using select_assignment_first [OF that] by (simp add: res)
  have anc: "get_effective_standard_version db tid tt = Some (versions db (standard_version_id b))"
    if none: "\<forall>x\<in>set (assignments db). \<not> (target_id x = tid \<and> target_type x = tt)"
      and split: "fs = nearer @ f # farther"
      and before: "\<forall>g\<in>set nearer. \<forall>x\<in>set (assignments db).
              \<not> (target_id x = g \<and> target_type x = FOLDER)"
      and row: "assignments db = pre' @ b # post'" "target_id b = f" "target_type b = FOLDER"
        "\<forall>x\<in>set pre'. \<not> (target_id x = f \<and> target_type x = FOLDER)"
  proof -
    from none have s: "select_assignment db tid tt = None"
      by (simp add: select_assignment_None_iff)
    from before have "\<forall>g\<in>set nearer. select_assignment db g FOLDER = None"
      by (simp add: select_assignment_None_iff)
    then have "nearest_assignment db fs = nearest_assignment db (f # farther)"
      unfolding split by (rule nearest_skip)
    also have "\<dots> = Some b"
      using select_assignment_first [OF row] by (rule nearest_here)
    finally show ?thesis using s by (simp add: res version_of_def)
  qed
  have none_found: "get_effective_standard_version db tid tt = Some None"
    if "\<forall>x\<in>set (assignments db). \<not> (target_id x = tid \<and> target_type x = tt)"
      "\<forall>g\<in>set fs. \<forall>x\<in>set (assignments db).
              \<not> (target_id x = g \<and> target_type x = FOLDER)"
  proof -
    from that(1) have s: "select_assignment db tid tt = None"
      by (simp add: select_assignment_None_iff)
    from that(2) have "nearest_assignment db fs = None"
      by (simp add: nearest_None list_all_iff select_assignment_None_iff)
    with s show ?thesis by (simp add: res version_of_def)
  qed
  have only: "(\<forall>x\<in>set (assignments db). \<not> (target_id x = tid \<and> target_type x = tt)) \<and>
      (\<forall>g\<in>set fs. \<forall>x\<in>set (assignments db).
              \<not> (target_id x = g \<and> target_type x = FOLDER))"
    if keys: "\<forall>x\<in>set (assignments db). versions db (standard_version_id x) \<noteq> None"
      and none: "get_effective_standard_version db tid tt = Some None"
  proof -
    have present: "versions db (standard_version_id a) \<noteq> None"
      if "select_assignment db t ty = Some a" for t ty a
      using keys select_assignment_in [OF that] by auto
    have s: "select_assignment db tid tt = None"
    proof (cases "select_assignment db tid tt")
      case (Some a)
      with present [OF Some] none show ?thesis by (simp add: res)
    qed simp
    have "nearest_assignment db fs = None"
    proof (cases "nearest_assignment db fs")
      case (Some a)
      then obtain f where "select_assignment db f FOLDER = Some a"
        using nearest_Some by blast
      from present [OF this] Some s none show ?thesis
        by (simp add: res version_of_def)
    qed simp
    then have "\<forall>g\<in>set fs. select_assignment db g FOLDER = None"
      by (simp add: nearest_None list_all_iff)
    with s show ?thesis by (simp add: select_assignment_None_iff)
  qed
  show ?thesis
  proof (intro conjI impI)
    assume "assignments db = pre @ a # post \<and>
          target_id a = tid \<and> target_type a = tt \<and>
          (\<forall>x\<in>set pre. \<not> (target_id x = tid \<and> target_type x = tt))"
    then show "get_effective_standard_version db tid tt =
                Some (versions db (standard_version_id a))"
      using own by blast
  next
    assume "(\<forall>x\<in>set (assignments db). \<not> (target_id x = tid \<and> target_type x = tt)) \<and>
          fs = nearer @ f # farther \<and>
          (\<forall>g\<in>set nearer. \<forall>x\<in>set (assignments db).
              \<not> (target_id x = g \<and> target_type x = FOLDER)) \<and>
          assignments db = pre' @ b # post' \<and>
          target_id b = f \<and> target_type b = FOLDER \<and>
          (\<forall>x\<in>set pre'. \<not> (target_id x = f \<and> target_type x = FOLDER))"
    then show "get_effective_standard_version db tid tt =
                Some (versions db (standard_version_id b))"
      using anc by metis
  next
    assume "(\<forall>x\<in>set (assignments db). \<not> (target_id x = tid \<and> target_type x = tt)) \<and>
          (\<forall>g\<in>set fs. \<forall>x\<in>set (assignments db).
              \<not> (target_id x = g \<and> target_type x = FOLDER))"
    then have n1: "\<forall>x\<in>set (assignments db). \<not> (target_id x = tid \<and> target_type x = tt)"
      and n2: "\<forall>g\<in>set fs. \<forall>x\<in>set (assignments db).
              \<not> (target_id x = g \<and> target_type x = FOLDER)"
      by simp_all
    show "get_effective_standard_version db tid tt = Some None"
      by (rule none_found [OF n1 n2])
  next
    assume keys: "\<forall>x\<in>set (assignments db). versions db (standard_version_id x) \<noteq> None"
    show "get_effective_standard_version db tid tt = Some None \<longleftrightarrow>
                 (\<forall>x\<in>set (assignments db). \<not> (target_id x = tid \<and> target_type x = tt)) \<and>
                 (\<forall>g\<in>set fs. \<forall>x\<in>set (assignments db).
                     \<not> (target_id x = g \<and> target_type x = FOLDER))"
    proof
      assume "get_effective_standard_version db tid tt = Some None"
      with keys show "(\<forall>x\<in>set (assignments db). \<not> (target_id x = tid \<and> target_type x = tt)) \<and>
                 (\<forall>g\<in>set fs. \<forall>x\<in>set (assignments db).
                     \<not> (target_id x = g \<and> target_type x = FOLDER))"
        by (rule only)
    next
      assume "(\<forall>x\<in>set (assignments db). \<not> (target_id x = tid \<and> target_type x = tt)) \<and>
                 (\<forall>g\<in>set fs. \<forall>x\<in>set (assignments db).
                     \<not> (target_id x = g \<and> target_type x = FOLDER))"
      then have n1: "\<forall>x\<in>set (assignments db). \<not> (target_id x = tid \<and> target_type x = tt)"
        and n2: "\<forall>g\<in>set fs. \<forall>x\<in>set (assignments db).
              \<not> (target_id x = g \<and> target_type x = FOLDER)"
        by simp_all
      show "get_effective_standard_version db tid tt = Some None"
        by (rule none_found [OF n1 n2])
    qed
  qed
qed

theorem resolve_nearest_ancestor_witness:
  "get_effective_standard_version db_shared 7 DOCUMENT = Some (versions db_shared 10) \<and>
   get_effective_standard_version db_shared 8 DOCUMENT = Some (versions db_shared 20) \<and>
   get_effective_standard_version db_shared 9 DOCUMENT = Some None \<and>
   versions db_shared 10 \<noteq> None \<and> versions db_shared 20 \<noteq> None \<and>
   versions db_shared 10 \<noteq> versions db_shared 20 \<and>
   versions db_shared 10 \<noteq> versions db_shared 30"
proof -
  let ?r1 = "\<lparr>target_id = 1, target_type = DOCUMENT, standard_version_id = 30\<rparr>"
  let ?r2 = "\<lparr>target_id = 1, target_type = FOLDER, standard_version_id = 10\<rparr>"
  let ?r3 = "\<lparr>target_id = 8, target_type = DOCUMENT, standard_version_id = 20\<rparr>"
  have tbl: "assignments db_shared = [?r1, ?r2, ?r3]"
    by (simp add: db_shared_def)
  have chain2: "is_chain db_shared (Some 2) [2, 1]"
    and chain3: "is_chain db_shared (Some 3) [3]"
    by (simp_all add: db_shared_def parent_of_def)
  have in2: "Some 2 = (case documents db_shared 7 of None \<Rightarrow> None | Some d \<Rightarrow> folder_id d)"
    "Some 2 = (case documents db_shared 8 of None \<Rightarrow> None | Some d \<Rightarrow> folder_id d)"
    and in3: "Some 3 = (case documents db_shared 9 of None \<Rightarrow> None | Some d \<Rightarrow> folder_id d)"
    by (simp_all add: db_shared_def)
  note inherited = resolve_nearest_ancestor [where db = db_shared and tid = 7 and tt = DOCUMENT
      and start = "Some 2" and fs = "[2, 1]" and nearer = "[2]" and f = 1 and farther = "[]"
      and pre' = "[?r1]" and b = ?r2 and post' = "[?r3]",
      OF in2(1) _ chain2, THEN conjunct2, THEN conjunct1]
  note own = resolve_nearest_ancestor [where db = db_shared and tid = 8 and tt = DOCUMENT
      and start = "Some 2" and fs = "[2, 1]" and pre = "[?r1, ?r2]" and a = ?r3 and post = "[]",
      OF in2(2) _ chain2, THEN conjunct1]
  note absent = resolve_nearest_ancestor [where db = db_shared and tid = 9 and tt = DOCUMENT
      and start = "Some 3" and fs = "[3]",
      OF in3 _ chain3, THEN conjunct2, THEN conjunct2, THEN conjunct1]
  from inherited have a: "get_effective_standard_version db_shared 7 DOCUMENT =
      Some (versions db_shared 10)"
    by (simp add: tbl)
  from own have b: "get_effective_standard_version db_shared 8 DOCUMENT =
      Some (versions db_shared 20)"
    by (simp add: tbl)
  from absent have c: "get_effective_standard_version db_shared 9 DOCUMENT = Some None"
    by (simp add: tbl)
  from a b c show ?thesis by (simp add: db_shared_def)
qed

text \<open>
  Claim C5, as the code has it. The resolver returns exactly when the target has an
  assignment of its own or the walk reaches, after finitely many steps, a folder with an
  assignment, a folder id without a row, or the parent of a root. Nothing bounds the
  walk otherwise.
\<close>

theorem resolve_terminates_iff:
  "(\<exists>r. get_effective_standard_version db tid tt = Some r) \<longleftrightarrow>
     (\<exists>n. stops_within n db (immediate_folder db tid tt)) \<or>
     select_assignment db tid tt \<noteq> None"
proof (cases "select_assignment db tid tt")
  case None
  then show ?thesis
    using walk_stops stops_walk
    by (auto simp: get_effective_standard_version_def)
next
  case (Some a)
  then show ?thesis by (simp add: get_effective_standard_version_def)
qed

theorem resolve_terminates_witness:
  "stops_within 2 db_tree (immediate_folder db_tree 7 DOCUMENT) \<and>
   (\<exists>r. get_effective_standard_version db_tree 7 DOCUMENT = Some r)"
proof -
  have s: "stops_within (Suc (Suc 0)) db_tree (immediate_folder db_tree 7 DOCUMENT)"
    by (simp add: immediate_folder_def db_tree_def parent_of_def select_assignment_def)
  then have "\<exists>n. stops_within n db_tree (immediate_folder db_tree 7 DOCUMENT)" by blast
  with resolve_terminates_iff [of db_tree 7 DOCUMENT] s show ?thesis
    by (simp add: numeral_2_eq_2)
qed

text \<open>
  Claim C5 as stated fails on a cycle: for a document in folder 1, where folders 1 and 2
  are each other's parent and nothing is assigned, the resolver never returns.
\<close>

theorem resolve_cycle_counterexample:
  "get_effective_standard_version db_cycle 7 DOCUMENT = None"
proof (cases "get_effective_standard_version db_cycle 7 DOCUMENT")
  case None
  then show ?thesis .
next
  case (Some r)
  then have "ancestor_walk db_cycle (Some 1) = Some r"
    by (simp add: get_effective_standard_version_def select_assignment_def
        immediate_folder_def db_cycle_def)
  then show ?thesis using stops_walk cycle_never_stops by blast
qed

section \<open>Assigning a standard (assignments.py, standard\_service.py)\<close>

text \<open>
  The operations below write the assignment table. Their other effects (the audit
  record, the validation jobs handed to the task queue) touch no assignment and are
  left out. A row added by \<open>db.add\<close> and committed is appended to the table.
\<close>

datatype db_error = MultipleResultsFound | IntegrityError

text \<open>\<open>.scalar_one_or_none()\<close>: no row, the only row, or an exception for more than one.\<close>

definition scalar_one_or_none :: "'a list \<Rightarrow> db_error + 'a option" where
  "scalar_one_or_none rows =
     (case rows of
        [] \<Rightarrow> Inr None
      | [row] \<Rightarrow> Inr (Some row)
      | _ \<Rightarrow> Inl MultipleResultsFound)"

text \<open>Writing a field of the first row that a query returned.\<close>

fun update_first :: "('a \<Rightarrow> bool) \<Rightarrow> ('a \<Rightarrow> 'a) \<Rightarrow> 'a list \<Rightarrow> 'a list" where
  "update_first P f [] = []"
| "update_first P f (x # xs) = (if P x then f x # xs else x # update_first P f xs)"

text \<open>
  \<open>db.commit()\<close> of a transaction that wrote the version id into a row of the
  assignment table. The column is a foreign key to the version table: when the version
  has no row the commit raises, the exception leaves the operation, and the table stays
  as it was.
\<close>

definition commit_assignments ::
  "database \<Rightarrow> uuid \<Rightarrow> StandardAssignment list \<Rightarrow> db_error + database" where
  "commit_assignments db svid rows =
     (if versions db svid = None then Inl IntegrityError
      else Inr (db\<lparr>assignments := rows\<rparr>))"

text \<open>
  The endpoint \<open>assign_standard\<close>: the row of the target, looked up by target id and
  target type, gets the new version; a target without a row gets a new one.
\<close>

definition assign_standard ::
  "database \<Rightarrow> uuid \<Rightarrow> TargetType \<Rightarrow> uuid \<Rightarrow> db_error + database" where
  "assign_standard db tid tt svid =
     (case select_assignment db tid tt of
        Some existing \<Rightarrow>
          commit_assignments db svid
            (update_first (\<lambda>a. target_id a = tid \<and> target_type a = tt)
               (\<lambda>a. a\<lparr>standard_version_id := svid\<rparr>) (assignments db))
      | None \<Rightarrow>
          commit_assignments db svid
            (assignments db @
               [\<lparr>target_id = tid, target_type = tt, standard_version_id = svid\<rparr>]))"

text \<open>
  \<open>StandardService.apply_to_document\<close>: the existing row is looked up by target id,
  target type and the version being applied; when that query finds nothing, a row is
  added. The result is the assignment and the table after the commit.
\<close>

definition apply_to_document ::
  "database \<Rightarrow> uuid \<Rightarrow> uuid \<Rightarrow> db_error + StandardAssignment \<times> database" where
  "apply_to_document db svid document_id =
     (case scalar_one_or_none
             (filter (\<lambda>a. target_id a = document_id \<and> target_type a = DOCUMENT \<and>
                            standard_version_id a = svid) (assignments db)) of
        Inl e \<Rightarrow> Inl e
      | Inr (Some existing) \<Rightarrow> Inr (existing, db)
      | Inr None \<Rightarrow>
          (let assignment =
                 \<lparr>target_id = document_id, target_type = DOCUMENT, standard_version_id = svid\<rparr>
           in case commit_assignments db svid (assignments db @ [assignment]) of
                Inl e \<Rightarrow> Inl e
              | Inr db' \<Rightarrow> Inr (assignment, db')))"

text \<open>The rows of a target.\<close>

definition rows_of :: "database \<Rightarrow> uuid \<Rightarrow> TargetType \<Rightarrow> StandardAssignment list" where
  "rows_of db tid tt = filter (\<lambda>a. target_id a = tid \<and> target_type a = tt) (assignments db)"

text \<open>
  The first tree, where document 7 has an assignment to version 10 and the version
  table holds the versions 10 and 20.
\<close>

definition db_assigned :: database where
  "db_assigned = db_tree
     \<lparr>assignments := [\<lparr>target_id = 7, target_type = DOCUMENT, standard_version_id = 10\<rparr>],
      versions := [10 \<mapsto> \<lparr>standard_id = 100, version_number = 1, rules_json = JObj [],
                             is_active = True\<rparr>,
                   20 \<mapsto> \<lparr>standard_id = 100, version_number = 2, rules_json = JObj [],
                             is_active = True\<rparr>]\<rparr>"

lemma filter_update_first_other:
  assumes "\<And>x. P x \<Longrightarrow> Q (f x) = Q x"
  shows "length (filter Q (update_first P f xs)) = length (filter Q xs)"
  using assms by (induction xs) auto

lemma assign_standard_rows:
  assumes "assign_standard db tid tt svid = Inr db'"
  shows "length (rows_of db' t ty) =
     (if (t, ty) = (tid, tt) \<and> select_assignment db tid tt = None then 1
      else length (rows_of db t ty))"
proof (cases "select_assignment db tid tt")
  case None
  then have "filter (\<lambda>a. target_id a = tid \<and> target_type a = tt) (assignments db) = []"
    by (auto simp: select_assignment_def find_None_iff filter_empty_conv)
  with None assms show ?thesis
    by (auto simp: assign_standard_def commit_assignments_def rows_of_def split: if_splits)
next
  case (Some a)
  have "length (filter (\<lambda>a. target_id a = t \<and> target_type a = ty)
          (update_first (\<lambda>a. target_id a = tid \<and> target_type a = tt)
             (\<lambda>a. a\<lparr>standard_version_id := svid\<rparr>) (assignments db))) =
        length (filter (\<lambda>a. target_id a = t \<and> target_type a = ty) (assignments db))"
    by (rule filter_update_first_other) simp
  with Some assms show ?thesis
    by (auto simp: assign_standard_def commit_assignments_def rows_of_def split: if_splits)
qed

text \<open>
  Claim C4 at a failing input. The versions 10 and 20 exist, and document 7 has one
  assignment, to version 10. Applying version 20 to it through \<open>apply_to_document\<close>
  commits, and leaves two rows for the document, each with an existing version. The
  endpoint \<open>assign_standard\<close> leaves the one row, updated. Applying a version that
  does not exist fails at the commit.
\<close>

theorem apply_to_document_second_row:
  "(case apply_to_document db_assigned 20 7 of
      Inr (a, db') \<Rightarrow>
        assignments db' =
          [\<lparr>target_id = 7, target_type = DOCUMENT, standard_version_id = 10\<rparr>,
           \<lparr>target_id = 7, target_type = DOCUMENT, standard_version_id = 20\<rparr>] \<and>
        length (filter (\<lambda>a. target_id a = 7 \<and> target_type a = DOCUMENT) (assignments db')) = 2 \<and>
        list_all (\<lambda>a. versions db' (standard_version_id a) \<noteq> None) (assignments db')
    | Inl e \<Rightarrow> False) \<and>
   assignments db_assigned =
     [\<lparr>target_id = 7, target_type = DOCUMENT, standard_version_id = 10\<rparr>] \<and>
   versions db_assigned 10 \<noteq> None \<and> versions db_assigned 20 \<noteq> None \<and>
   (case assign_standard db_assigned 7 DOCUMENT 20 of
      Inr db' \<Rightarrow>
        assignments db' =
          [\<lparr>target_id = 7, target_type = DOCUMENT, standard_version_id = 20\<rparr>]
    | Inl e \<Rightarrow> False) \<and>
   apply_to_document db_assigned 40 7 = Inl IntegrityError"
  by (simp add: apply_to_document_def assign_standard_def commit_assignments_def
        scalar_one_or_none_def select_assignment_def db_assigned_def db_tree_def Let_def)

section \<open>Deterministic validation (validation\_service.py)\<close>

subsection \<open>Reports and the libraries\<close>

text \<open>
  The report dictionary of \<open>validate_document\<close>. \<open>details\<close> is a dictionary in
  insertion order; only its \<open>format\<close> key is ever written.
\<close>

record report =
  compliant :: bool
  errors :: "string list"
  warnings :: "string list"
  details :: "(string \<times> string) list"

text \<open>
  The validator reads the document through \<open>zipfile\<close> and \<open>odfpy\<close>. What these
  libraries answer for given bytes is not part of the service, so it is a parameter of
  the model. An opened archive gives its names and the content of an entry
  (\<open>None\<close> when reading it raises).
\<close>

record zip_archive =
  namelist :: "string list"
  zread :: "string \<Rightarrow> bytes option"

text \<open>
  A loaded ODF document, as far as the validator looks at it: the \<open>version\<close> attribute
  of the top node (\<open>None\<close> when it has none), and the outcomes of the two walks over
  the document tree, \<open>_extract_metadata\<close> (local name of each child of the meta node
  with its stripped text) and \<open>_extract_styles_simple\<close> (each named style with its text
  properties, keyed \<open>text:<name>\<close>). A walk reads attributes of odfpy's node objects and
  may raise; then its outcome is \<open>None\<close>. Every theorem below holds for each outcome.
\<close>

record odf_document =
  version :: "string option"
  extract_metadata :: "(string \<times> string) list option"
  extract_styles_simple :: "(string \<times> (string \<times> string) list) list option"

text \<open>
  The library functions: \<open>zipfile.is_zipfile\<close>, \<open>zipfile.ZipFile\<close> (\<open>None\<close> when it
  raises), \<open>bytes.decode("utf-8")\<close> (\<open>None\<close> when it raises), \<open>odf.opendocument.load\<close>
  (\<open>Inl\<close> the message of the exception it raises) and \<open>str\<close> on a rule value that is
  not a string. Each is a function of the bytes: opening the same content twice gives the
  same archive.
\<close>

record pylib =
  is_zipfile :: "bytes \<Rightarrow> bool"
  ZipFile :: "bytes \<Rightarrow> zip_archive option"
  decode_utf8 :: "bytes \<Rightarrow> string option"
  load :: "bytes \<Rightarrow> string + odf_document"
  str_of :: "json \<Rightarrow> string"

text \<open>
  \<open>d.get(key, default)\<close> and \<open>d.items()\<close> on a value of the rules: a value that is no
  dictionary has neither method, and the call raises (\<open>None\<close>). The keys of a
  dictionary are distinct.
\<close>

definition py_get :: "json \<Rightarrow> string \<Rightarrow> json \<Rightarrow> json option" where
  "py_get d key dflt =
     (case d of
        JObj kvs \<Rightarrow> Some (case map_of kvs key of None \<Rightarrow> dflt | Some v \<Rightarrow> v)
      | _ \<Rightarrow> None)"

definition py_items :: "json \<Rightarrow> (string \<times> json) list option" where
  "py_items d = (case d of JObj kvs \<Rightarrow> Some kvs | _ \<Rightarrow> None)"

text \<open>
\<open>str(value)\<close> inside a formatted message; on a string it is the string itself.
\<close>

definition py_str :: "pylib \<Rightarrow> json \<Rightarrow> string" where
  "py_str lib v = (case v of JStr s \<Rightarrow> s | _ \<Rightarrow> str_of lib v)"

text \<open>
\<open>d[key] = value\<close> on a dictionary in insertion order.
\<close>

fun dict_set :: "string \<Rightarrow> 'v \<Rightarrow> (string \<times> 'v) list \<Rightarrow> (string \<times> 'v) list" where
  "dict_set k v [] = [(k, v)]"
| "dict_set k v (p # ps) = (if fst p = k then (k, v) # ps else p # dict_set k v ps)"

subsection \<open>Messages\<close>

definition pdf_warning :: string where
  "pdf_warning = ''PDF documents only support metadata/format validation. Structural standards are skipped.''"

definition docx_warning :: string where
  "docx_warning = ''Word documents (.docx) support macro detection but skip structural ODF standards.''"

definition docx_macro_error :: string where
  "docx_macro_error = ''Macros detected in Word document.''"

definition unsupported_error :: string where
  "unsupported_error = ''Unsupported file format. Please upload ODF, PDF, or Word (.docx) files.''"

definition macro_error :: string where
  "macro_error = ''Macros detected. Macros are strictly forbidden.''"

definition missing_error :: "string \<Rightarrow> string" where
  "missing_error key = ''Missing required metadata field: '' @ key"

text \<open>
The quote character of the formatted messages.
\<close>

definition sq :: string where
  "sq = [CHR 0x27]"

definition mismatch_warning :: "pylib \<Rightarrow> string \<Rightarrow> json \<Rightarrow> string \<Rightarrow> string" where
  "mismatch_warning lib key v d =
     ''Metadata mismatch for '' @ key @ ''. Expected '' @ sq @ py_str lib v @ sq @
     '', got '' @ sq @ d @ sq"



definition style_warning :: "pylib \<Rightarrow> string \<Rightarrow> string \<Rightarrow> json \<Rightarrow> string \<Rightarrow> string" where
  "style_warning lib style_name prop_key prop_val d =
     ''Style '' @ sq @ style_name @ sq @ '' mismatch: '' @ prop_key @ '' expected '' @ sq @
     py_str lib prop_val @ sq @ '', got '' @ sq @ d @ sq"

definition opt_str :: "string option \<Rightarrow> string" where
  "opt_str v = (case v of None \<Rightarrow> ''None'' | Some s \<Rightarrow> s)"

definition version_warning :: "string option \<Rightarrow> string" where
  "version_warning v =
     ''Document version is '' @ sq @ opt_str v @ sq @ '', expected '' @ sq @ ''1.2'' @ sq @ ''.''"

definition version_error :: "string option \<Rightarrow> string" where
  "version_error v = ''Strict ODF 1.2 compliance failed. Found version: '' @ opt_str v"

definition invalid_odf_error :: "string \<Rightarrow> string" where
  "invalid_odf_error e = ''Invalid ODF file: '' @ e"

subsection \<open>The handlers\<close>

text \<open>
  How a block of the validator ends: with a \<open>return\<close>, with an exception, or by
  running to its end. The report is changed in place, so each of the three carries the
  report as it is at that moment.
\<close>

datatype outcome = Returned report | Raised report | Completed report

fun report_of :: "outcome \<Rightarrow> report" where
  "report_of (Returned r) = r"
| "report_of (Raised r) = r"
| "report_of (Completed r) = r"

text \<open>
  \<open>_has_macros\<close> and \<open>_has_macros_docx\<close>: the archive is opened again; when that
  raises, the answer is \<open>False\<close>.
\<close>

definition has_macros :: "pylib \<Rightarrow> bytes \<Rightarrow> bool" where
  "has_macros lib file_content =
     (case ZipFile lib file_content of
        None \<Rightarrow> False
      | Some z \<Rightarrow>
          list_ex (\<lambda>n. startswith n ''Basic/'' \<or> startswith n ''Scripts/'') (namelist z))"

definition has_macros_docx :: "pylib \<Rightarrow> bytes \<Rightarrow> bool" where
  "has_macros_docx lib file_content =
     (case ZipFile lib file_content of
        None \<Rightarrow> False
      | Some z \<Rightarrow>
          list_ex (\<lambda>n. str_contains n ''vbaProject'' \<or> endswith n ''.vba'' \<or>
                        str_contains (lower n) ''macros'') (namelist z))"

text \<open>
  The loop over \<open>target_metadata.items()\<close> ("3. Metadata Validation"): a key missing
  from the document is an error and sets \<open>compliant\<close> to \<open>False\<close>; a key whose value
  differs is a warning.
\<close>

fun check_metadata ::
  "pylib \<Rightarrow> (string \<times> json) list \<Rightarrow> (string \<times> string) list \<Rightarrow> report \<Rightarrow> report" where
  "check_metadata lib [] doc_metadata r = r"
| "check_metadata lib ((key, v) # rest) doc_metadata r =
     check_metadata lib rest doc_metadata
       (case map_of doc_metadata key of
          None \<Rightarrow> r\<lparr>compliant := False, errors := errors r @ [missing_error key]\<rparr>
        | Some d \<Rightarrow>
            if JStr d \<noteq> v then r\<lparr>warnings := warnings r @ [mismatch_warning lib key v d]\<rparr>
            else r)"

text \<open>
  \<open>_validate_styles\<close>: the inner loop over the properties of a rule, the outer loop over
  the styles of the rules, and the method itself.
\<close>

fun check_properties ::
  "pylib \<Rightarrow> string \<Rightarrow> (string \<times> json) list \<Rightarrow> (string \<times> string) list \<Rightarrow> report \<Rightarrow> report" where
  "check_properties lib style_name [] doc_props r = r"
| "check_properties lib style_name ((prop_key, prop_val) # rest) doc_props r =
     check_properties lib style_name rest doc_props
       (case map_of doc_props prop_key of
          None \<Rightarrow> r
        | Some d \<Rightarrow>
            if JStr d \<noteq> prop_val then
              r\<lparr>warnings := warnings r @ [style_warning lib style_name prop_key prop_val d]\<rparr>
            else r)"

fun check_styles ::
  "pylib \<Rightarrow> (string \<times> json) list \<Rightarrow> (string \<times> (string \<times> string) list) list \<Rightarrow> report \<Rightarrow> outcome" where
  "check_styles lib [] doc_styles r = Completed r"
| "check_styles lib ((style_name, rules) # rest) doc_styles r =
     (case map_of doc_styles style_name of
        None \<Rightarrow> check_styles lib rest doc_styles r
      | Some doc_props \<Rightarrow>
          (case py_get rules ''properties'' (JObj []) of
             None \<Rightarrow> Raised r
           | Some rule_props \<Rightarrow>
               (case py_items rule_props of
                  None \<Rightarrow> Raised r
                | Some props \<Rightarrow>
                    check_styles lib rest doc_styles
                      (check_properties lib style_name props doc_props r))))"

definition validate_styles :: "pylib \<Rightarrow> odf_document \<Rightarrow> json \<Rightarrow> report \<Rightarrow> outcome" where
  "validate_styles lib doc allowed_styles r =
     (case extract_styles_simple doc of
        None \<Rightarrow> Raised r
      | Some doc_styles \<Rightarrow>
          (case py_items allowed_styles of
             None \<Rightarrow> Raised r
           | Some rules \<Rightarrow> check_styles lib rules doc_styles r))"

text \<open>
  \<open>_validate_odf\<close>, with its version check ("Check version") and its macro check
  ("2. No Macros Allowed") as steps of their own. The inner test of the version check
  repeats the outer one.
\<close>

definition check_version :: "odf_document \<Rightarrow> report \<Rightarrow> report" where
  "check_version doc r =
     (let odf_version = version doc
      in if odf_version \<noteq> Some ''1.2'' then
           r\<lparr>warnings := warnings r @ [version_warning odf_version],
             compliant := False,
             errors := errors r @ [version_error odf_version]\<rparr>
         else r)"

definition check_macros :: "pylib \<Rightarrow> bytes \<Rightarrow> report \<Rightarrow> report" where
  "check_macros lib file_content r =
     (if has_macros lib file_content then
        r\<lparr>compliant := False, errors := errors r @ [macro_error]\<rparr>
      else r)"

definition validate_odf :: "pylib \<Rightarrow> bytes \<Rightarrow> StandardVersion \<Rightarrow> report \<Rightarrow> outcome" where
  "validate_odf lib file_content standard_version report0 =
     (case load lib file_content of
        Inl e \<Rightarrow>
          Returned (report0\<lparr>compliant := False,
                            errors := errors report0 @ [invalid_odf_error e]\<rparr>)
      | Inr doc \<Rightarrow>
          (let r = report0\<lparr>details := dict_set ''format'' ''ODF'' (details report0)\<rparr>;
               r = check_version doc r;
               r = check_macros lib file_content r
           in case py_get (rules_json standard_version) ''metadata'' (JObj []) of
                None \<Rightarrow> Raised r
              | Some target_metadata \<Rightarrow>
                  (case extract_metadata doc of
                     None \<Rightarrow> Raised r
                   | Some doc_metadata \<Rightarrow>
                       (case py_items target_metadata of
                          None \<Rightarrow> Raised r
                        | Some rules \<Rightarrow>
                            (let r = check_metadata lib rules doc_metadata r
                             in case py_get (rules_json standard_version) ''styles'' (JObj []) of
                                  None \<Rightarrow> Raised r
                                | Some allowed_styles \<Rightarrow>
                                    (case validate_styles lib doc allowed_styles r of
                                       Raised r' \<Rightarrow> Raised r'
                                     | Returned r' \<Rightarrow> Returned r'
                                     | Completed r' \<Rightarrow> Returned r'))))))"

text \<open>
  The test that sends an archive to the ODF handler: a \<open>mimetype\<close> entry whose
  decoded content contains \<open>opendocument\<close>. \<open>None\<close> when reading or decoding the
  entry raises.
\<close>

definition odf_mimetype :: "pylib \<Rightarrow> zip_archive \<Rightarrow> bool option" where
  "odf_mimetype lib z =
     (if ''mimetype'' \<in> set (namelist z) then
        (case zread z ''mimetype'' of
           None \<Rightarrow> None
         | Some raw \<Rightarrow>
             (case decode_utf8 lib raw of
                None \<Rightarrow> None
              | Some mimetype \<Rightarrow> Some (str_contains mimetype ''opendocument'')))
      else Some False)"

text \<open>
  The \<open>try\<close> block of \<open>validate_document\<close>. The ODF handler is called inside it, so
  an exception of the handler ends the block as well.
\<close>

definition try_zip :: "pylib \<Rightarrow> bytes \<Rightarrow> StandardVersion \<Rightarrow> report \<Rightarrow> outcome" where
  "try_zip lib file_content standard_version r =
     (case ZipFile lib file_content of
        None \<Rightarrow> Raised r
      | Some z \<Rightarrow>
          (case odf_mimetype lib z of
             None \<Rightarrow> Raised r
           | Some True \<Rightarrow> validate_odf lib file_content standard_version r
           | Some False \<Rightarrow>
               if ''word/document.xml'' \<in> set (namelist z) then
                 (let r = r\<lparr>details := dict_set ''format'' ''DOCX'' (details r),
                            warnings := warnings r @ [docx_warning]\<rparr>;
                      r = (if has_macros_docx lib file_content then
                             r\<lparr>compliant := False, errors := errors r @ [docx_macro_error]\<rparr>
                           else r)
                  in Returned r)
               else Completed r))"

text \<open>
  \<open>validate_document\<close>. The PDF test comes first. After the \<open>try\<close> block, left by
  an exception (\<open>except: pass\<close>) or at its end, the format is unsupported; the report
  may hold by then what the ODF handler wrote before it raised.
\<close>

definition validate_document :: "pylib \<Rightarrow> bytes \<Rightarrow> StandardVersion \<Rightarrow> report" where
  "validate_document lib file_content standard_version =
     (let r = \<lparr>compliant = True, errors = [], warnings = [], details = []\<rparr>;
          is_zip = is_zipfile lib file_content;
          is_pdf = startswith file_content ''%PDF-''
      in if is_pdf then
           r\<lparr>details := dict_set ''format'' ''PDF'' (details r),
             warnings := warnings r @ [pdf_warning]\<rparr>
         else
           (case (if is_zip then try_zip lib file_content standard_version r else Completed r) of
              Returned r' \<Rightarrow> r'
            | Raised r' \<Rightarrow>
                r'\<lparr>compliant := False, errors := errors r' @ [unsupported_error]\<rparr>
            | Completed r' \<Rightarrow>
                r'\<lparr>compliant := False, errors := errors r' @ [unsupported_error]\<rparr>))"

subsection \<open>The report as an object\<close>

text \<open>
  In the source the report is a dictionary: \<open>validate_document\<close> creates it, the
  handlers receive the reference, change the dictionary in place and hand the reference
  back. The class has no attribute and the module no variable that a call writes, so
  the objects that exist are all the state a call could read or leave behind. Here they
  form a store, a list of reports, and a reference is a position in it: a new object
  goes to the end, and a step changes the object behind its reference. The two lists
  and the dictionary of a report are created with it and referred to from nowhere else,
  so they are part of the object. The handlers below are those of the source once more,
  statement by statement, on a reference and a store.
\<close>

type_synonym ref = nat

type_synonym store = "report list"

definition new_report :: "store \<Rightarrow> ref \<times> store" where
  "new_report h =
     (length h, h @ [\<lparr>compliant = True, errors = [], warnings = [], details = []\<rparr>])"

definition change :: "ref \<Rightarrow> (report \<Rightarrow> report) \<Rightarrow> store \<Rightarrow> store" where
  "change p f h = h[p := f (h ! p)]"

datatype ending = Return | Raise | Complete

fun ending_of :: "outcome \<Rightarrow> ending" where
  "ending_of (Returned r) = Return"
| "ending_of (Raised r) = Raise"
| "ending_of (Completed r) = Complete"

fun check_styles_obj ::
  "pylib \<Rightarrow> (string \<times> json) list \<Rightarrow> (string \<times> (string \<times> string) list) list \<Rightarrow>
   ref \<Rightarrow> store \<Rightarrow> ending \<times> store" where
  "check_styles_obj lib [] doc_styles p h = (Complete, h)"
| "check_styles_obj lib ((style_name, rules) # rest) doc_styles p h =
     (case map_of doc_styles style_name of
        None \<Rightarrow> check_styles_obj lib rest doc_styles p h
      | Some doc_props \<Rightarrow>
          (case py_get rules ''properties'' (JObj []) of
             None \<Rightarrow> (Raise, h)
           | Some rule_props \<Rightarrow>
               (case py_items rule_props of
                  None \<Rightarrow> (Raise, h)
                | Some props \<Rightarrow>
                    check_styles_obj lib rest doc_styles p
                      (change p (check_properties lib style_name props doc_props) h))))"

definition validate_styles_obj ::
  "pylib \<Rightarrow> odf_document \<Rightarrow> json \<Rightarrow> ref \<Rightarrow> store \<Rightarrow> ending \<times> store" where
  "validate_styles_obj lib doc allowed_styles p h =
     (case extract_styles_simple doc of
        None \<Rightarrow> (Raise, h)
      | Some doc_styles \<Rightarrow>
          (case py_items allowed_styles of
             None \<Rightarrow> (Raise, h)
           | Some rules \<Rightarrow> check_styles_obj lib rules doc_styles p h))"

definition validate_odf_obj ::
  "pylib \<Rightarrow> bytes \<Rightarrow> StandardVersion \<Rightarrow> ref \<Rightarrow> store \<Rightarrow> ending \<times> store" where
  "validate_odf_obj lib file_content standard_version p h =
     (case load lib file_content of
        Inl e \<Rightarrow>
          (Return, change p (\<lambda>r. r\<lparr>compliant := False,
                                    errors := errors r @ [invalid_odf_error e]\<rparr>) h)
      | Inr doc \<Rightarrow>
          (let h = change p (\<lambda>r. r\<lparr>details := dict_set ''format'' ''ODF'' (details r)\<rparr>) h;
               h = change p (check_version doc) h;
               h = change p (check_macros lib file_content) h
           in case py_get (rules_json standard_version) ''metadata'' (JObj []) of
                None \<Rightarrow> (Raise, h)
              | Some target_metadata \<Rightarrow>
                  (case extract_metadata doc of
                     None \<Rightarrow> (Raise, h)
                   | Some doc_metadata \<Rightarrow>
                       (case py_items target_metadata of
                          None \<Rightarrow> (Raise, h)
                        | Some rules \<Rightarrow>
                            (let h = change p (check_metadata lib rules doc_metadata) h
                             in case py_get (rules_json standard_version) ''styles'' (JObj []) of
                                  None \<Rightarrow> (Raise, h)
                                | Some allowed_styles \<Rightarrow>
                                    (case validate_styles_obj lib doc allowed_styles p h of
                                       (Raise, h') \<Rightarrow> (Raise, h')
                                     | (Return, h') \<Rightarrow> (Return, h')
                                     | (Complete, h') \<Rightarrow> (Return, h')))))))"

definition try_zip_obj ::
  "pylib \<Rightarrow> bytes \<Rightarrow> StandardVersion \<Rightarrow> ref \<Rightarrow> store \<Rightarrow> ending \<times> store" where
  "try_zip_obj lib file_content standard_version p h =
     (case ZipFile lib file_content of
        None \<Rightarrow> (Raise, h)
      | Some z \<Rightarrow>
          (case odf_mimetype lib z of
             None \<Rightarrow> (Raise, h)
           | Some True \<Rightarrow> validate_odf_obj lib file_content standard_version p h
           | Some False \<Rightarrow>
               if ''word/document.xml'' \<in> set (namelist z) then
                 (let h = change p (\<lambda>r. r\<lparr>details := dict_set ''format'' ''DOCX'' (details r),
                                            warnings := warnings r @ [docx_warning]\<rparr>) h;
                      h = (if has_macros_docx lib file_content then
                             change p (\<lambda>r. r\<lparr>compliant := False,
                                              errors := errors r @ [docx_macro_error]\<rparr>) h
                           else h)
                  in (Return, h))
               else (Complete, h)))"

definition validate_document_obj ::
  "pylib \<Rightarrow> bytes \<Rightarrow> StandardVersion \<Rightarrow> store \<Rightarrow> ref \<times> store" where
  "validate_document_obj lib file_content standard_version h0 =
     (case new_report h0 of
        (p, h) \<Rightarrow>
          (let is_zip = is_zipfile lib file_content;
               is_pdf = startswith file_content ''%PDF-''
           in if is_pdf then
                (p, change p (\<lambda>r. r\<lparr>details := dict_set ''format'' ''PDF'' (details r),
                                      warnings := warnings r @ [pdf_warning]\<rparr>) h)
              else
                (case (if is_zip then try_zip_obj lib file_content standard_version p h
                       else (Complete, h)) of
                   (Return, h') \<Rightarrow> (p, h')
                 | (Raise, h') \<Rightarrow>
                     (p, change p (\<lambda>r. r\<lparr>compliant := False,
                                           errors := errors r @ [unsupported_error]\<rparr>) h')
                 | (Complete, h') \<Rightarrow>
                     (p, change p (\<lambda>r. r\<lparr>compliant := False,
                                           errors := errors r @ [unsupported_error]\<rparr>) h'))))"

subsection \<open>Proof vocabulary\<close>

definition consistent :: "report \<Rightarrow> bool" where
  "consistent r = (compliant r = (errors r = []))"

text \<open>The report of the ODF handler once the document is loaded.\<close>

definition odf_checked :: "pylib \<Rightarrow> bytes \<Rightarrow> odf_document \<Rightarrow> report \<Rightarrow> report" where
  "odf_checked lib b doc r =
     check_macros lib b
       (check_version doc (r\<lparr>details := dict_set ''format'' ''ODF'' (details r)\<rparr>))"

definition styles_outcome :: "outcome \<Rightarrow> outcome" where
  "styles_outcome out =
     (case out of Raised r' \<Rightarrow> Raised r' | Returned r' \<Rightarrow> Returned r' | Completed r' \<Rightarrow> Returned r')"

definition initial_report :: report where
  "initial_report = \<lparr>compliant = True, errors = [], warnings = [], details = []\<rparr>"

definition unsupported :: "report \<Rightarrow> report" where
  "unsupported r = r\<lparr>compliant := False, errors := errors r @ [unsupported_error]\<rparr>"

subsection \<open>A library with six files\<close>

text \<open>
  A library that knows a fixed list of files, each with the archive \<open>zipfile\<close> opens
  and the answer of \<open>load\<close>; any other content is no archive. Text is ASCII.
\<close>

definition table_lib :: "(bytes \<times> zip_archive \<times> (string + odf_document)) list \<Rightarrow> pylib" where
  "table_lib files =
     \<lparr>is_zipfile = (\<lambda>b. map_of files b \<noteq> None),
      ZipFile = (\<lambda>b. map_option fst (map_of files b)),
      decode_utf8 = Some,
      load = (\<lambda>b. case map_of files b of
                     None \<Rightarrow> Inl ''File is not a zip file''
                   | Some (z, d) \<Rightarrow> d),
      str_of = (\<lambda>v. ''?'')\<rparr>"

definition archive :: "string list \<Rightarrow> zip_archive" where
  "archive names =
     \<lparr>namelist = names,
      zread = (\<lambda>n. if n = ''mimetype'' \<and> n \<in> set names
                     then Some ''application/vnd.oasis.opendocument.text'' else None)\<rparr>"

definition odt_names :: "string list" where
  "odt_names = [''mimetype'', ''content.xml'', ''meta.xml'', ''META-INF/manifest.xml'']"

definition docx_names :: "string list" where
  "docx_names = [''[Content_Types].xml'', ''word/document.xml'']"

text \<open>
  Two loaded documents with the same version and metadata. In the repository
  \<open>_extract_styles_simple\<close> compares the name of each child of the two style nodes
  with \<open>(style.ns, 'style')\<close>, and the module \<open>odf.style\<close> has no attribute \<open>ns\<close>: the
  walk raises at the first child it meets, and returns, with an empty dictionary, only
  when neither node has a child. So \<open>doc_report\<close> is a document whose style nodes are
  empty, and \<open>doc_styled\<close> a document that declares a style.
\<close>

definition doc_report :: odf_document where
  "doc_report =
     \<lparr>version = Some ''1.2'',
      extract_metadata = Some [(''title'', ''Report''), (''creator'', ''Ann'')],
      extract_styles_simple = Some []\<rparr>"

definition doc_styled :: odf_document where
  "doc_styled =
     \<lparr>version = Some ''1.2'',
      extract_metadata = Some [(''title'', ''Report''), (''creator'', ''Ann'')],
      extract_styles_simple = None\<rparr>"

text \<open>
  An ODF text document without styles; the same with a Basic library; an archive with
  the ODF mimetype and a Basic library that \<open>load\<close> rejects; a Word package with a VBA
  project; that package behind a PDF header (an archive is read from its end, so
  content may precede it); and an ODF text document with a style.
\<close>

definition demo_files :: "(bytes \<times> zip_archive \<times> (string + odf_document)) list" where
  "demo_files =
     [(''PK:report.odt'', archive odt_names, Inr doc_report),
      (''PK:macro.odt'', archive (odt_names @ [''Basic/Standard/Module1.xml'']), Inr doc_report),
      (''PK:broken.odt'', archive [''mimetype'', ''Basic/Standard/Module1.xml''],
         Inl ''There is no item named META-INF/manifest.xml in the archive''),
      (''PK:macro.docm'', archive (docx_names @ [''word/vbaProject.bin'']),
         Inl ''There is no item named mimetype in the archive''),
      (''%PDF-1.7 PK:macro.docm'', archive (docx_names @ [''word/vbaProject.bin'']),
         Inl ''There is no item named mimetype in the archive''),
      (''PK:styled.odt'', archive odt_names, Inr doc_styled)]"

definition demo_lib :: pylib where
  "demo_lib = table_lib demo_files"

text \<open>
A second library, which knows the styled document and no other file.
\<close>

definition styled_lib :: pylib where
  "styled_lib = table_lib [(''PK:styled.odt'', archive odt_names, Inr doc_styled)]"

text \<open>
Two standard versions: the rules of scenario A, and rules with two metadata keys and a style.
\<close>

definition sv_title :: StandardVersion where
  "sv_title =
     \<lparr>standard_id = 100, version_number = 1,
      rules_json = JObj [(''metadata'', JObj [(''title'', JStr ''X'')])], is_active = True\<rparr>"

definition sv_rules :: StandardVersion where
  "sv_rules =
     \<lparr>standard_id = 100, version_number = 2,
      rules_json = JObj [(''metadata'', JObj [(''title'', JStr ''X''), (''subject'', JStr ''S'')]),
                         (''styles'', JObj [(''Heading 1'',
                             JObj [(''properties'', JObj [(''text:font-name'', JStr ''Times'')])])])],
      is_active = False\<rparr>"

lemmas demo_lib_defs = demo_lib_def table_lib_def demo_files_def archive_def odt_names_def
  docx_names_def doc_report_def doc_styled_def sv_title_def sv_rules_def

subsection \<open>What the steps keep\<close>

lemma check_properties_keeps:
  "compliant (check_properties lib sn ps dp r) = compliant r \<and>
   errors (check_properties lib sn ps dp r) = errors r \<and>
   details (check_properties lib sn ps dp r) = details r \<and>
   set (warnings r) \<subseteq> set (warnings (check_properties lib sn ps dp r))"
  by (induction lib sn ps dp r rule: check_properties.induct)
     (auto split: option.splits)

lemma check_styles_keeps:
  "compliant (report_of (check_styles lib rules ds r)) = compliant r \<and>
   errors (report_of (check_styles lib rules ds r)) = errors r \<and>
   details (report_of (check_styles lib rules ds r)) = details r \<and>
   set (warnings r) \<subseteq> set (warnings (report_of (check_styles lib rules ds r)))"
proof (induction lib rules ds r rule: check_styles.induct)
  case (1 lib ds r)
  then show ?case by simp
next
  case (2 lib style_name rules rest ds r)
  show ?case
  proof (cases "map_of ds style_name")
    case None
    with 2(1) show ?thesis by simp
  next
    case (Some doc_props)
    show ?thesis
    proof (cases "py_get rules ''properties'' (JObj [])")
      case None
      with Some show ?thesis by simp
    next
      case sp: (Some rule_props)
      show ?thesis
      proof (cases "py_items rule_props")
        case None
        with Some sp show ?thesis by simp
      next
        case si: (Some props)
        from 2(2) [OF Some sp si]
          check_properties_keeps [of lib style_name props doc_props r]
        show ?thesis using Some sp si by auto
      qed
    qed
  qed
qed

lemma check_styles_not_returned: "check_styles lib rules ds r \<noteq> Returned r'"
  by (induction lib rules ds r rule: check_styles.induct) (auto split: option.splits)

lemma validate_styles_keeps:
  "compliant (report_of (validate_styles lib doc st r)) = compliant r \<and>
   errors (report_of (validate_styles lib doc st r)) = errors r \<and>
   details (report_of (validate_styles lib doc st r)) = details r \<and>
   set (warnings r) \<subseteq> set (warnings (report_of (validate_styles lib doc st r)))"
  using check_styles_keeps
  by (auto simp: validate_styles_def split: option.splits)

lemma validate_styles_not_returned: "validate_styles lib doc st r \<noteq> Returned r'"
  by (auto simp: validate_styles_def check_styles_not_returned split: option.splits)

lemma check_metadata_compliant:
  "compliant (check_metadata lib rules md r) =
     (compliant r \<and> list_all (\<lambda>(k, v). map_of md k \<noteq> None) rules)"
  by (induction lib rules md r rule: check_metadata.induct) (auto split: option.splits)

lemma check_metadata_errors:
  "errors (check_metadata lib rules md r) =
     errors r @ map (\<lambda>(k, v). missing_error k) (filter (\<lambda>(k, v). map_of md k = None) rules)"
  by (induction lib rules md r rule: check_metadata.induct) (auto split: option.splits)


lemma check_metadata_details:
  "details (check_metadata lib rules md r) = details r"
  by (induction lib rules md r rule: check_metadata.induct) (auto split: option.splits)

lemma check_metadata_consistent:
  "consistent r \<Longrightarrow> consistent (check_metadata lib rules md r)"
  by (induction lib rules md r rule: check_metadata.induct)
     (auto simp: consistent_def split: option.splits)

lemma validate_styles_consistent:
  "consistent r \<Longrightarrow> consistent (report_of (validate_styles lib doc st r))"
  using validate_styles_keeps [of lib doc st r] by (simp add: consistent_def)

lemma validate_odf_loaded:
  assumes "load lib b = Inr doc"
  shows "validate_odf lib b sv r =
      (case py_get (rules_json sv) ''metadata'' (JObj []) of
         None \<Rightarrow> Raised (odf_checked lib b doc r)
       | Some target_metadata \<Rightarrow>
           (case extract_metadata doc of
              None \<Rightarrow> Raised (odf_checked lib b doc r)
            | Some doc_metadata \<Rightarrow>
                (case py_items target_metadata of
                   None \<Rightarrow> Raised (odf_checked lib b doc r)
                 | Some rules \<Rightarrow>
                     (case py_get (rules_json sv) ''styles'' (JObj []) of
                        None \<Rightarrow> Raised (check_metadata lib rules doc_metadata (odf_checked lib b doc r))
                      | Some allowed_styles \<Rightarrow>
                          styles_outcome
                            (validate_styles lib doc allowed_styles
                               (check_metadata lib rules doc_metadata (odf_checked lib b doc r)))))))"
  unfolding validate_odf_def Let_def odf_checked_def styles_outcome_def assms
  by (simp only: sum.case)

lemma report_of_styles_outcome [simp]: "report_of (styles_outcome out) = report_of out"
  by (cases out) (simp_all add: styles_outcome_def)

lemma odf_checked_consistent: "consistent r \<Longrightarrow> consistent (odf_checked lib b doc r)"
  by (auto simp: odf_checked_def check_macros_def check_version_def consistent_def Let_def)

lemma validate_odf_consistent:
  assumes "consistent r"
  shows "consistent (report_of (validate_odf lib b sv r))"
proof (cases "load lib b")
  case (Inl e)
  then show ?thesis by (simp add: validate_odf_def consistent_def)
next
  case (Inr doc)
  show ?thesis
    unfolding validate_odf_loaded [OF Inr]
    using odf_checked_consistent [OF assms] check_metadata_consistent validate_styles_consistent
    by (auto split: option.splits)
qed

lemma try_zip_consistent:
  "consistent r \<Longrightarrow> consistent (report_of (try_zip lib b sv r))"
  using validate_odf_consistent [of r lib b sv]
  by (auto simp: try_zip_def Let_def consistent_def split: option.splits bool.splits)

lemma validate_document_odf:
  assumes "\<not> startswith b ''%PDF-''" "is_zipfile lib b" "ZipFile lib b = Some z"
    and "odf_mimetype lib z = Some True"
  shows "validate_document lib b sv =
     (case validate_odf lib b sv initial_report of
        Returned r' \<Rightarrow> r'
      | Raised r' \<Rightarrow> unsupported r'
      | Completed r' \<Rightarrow> unsupported r')"
  using assms
  by (auto simp: validate_document_def try_zip_def initial_report_def unsupported_def
        split: outcome.splits)

lemma validate_document_odf_report:
  assumes "\<not> startswith b ''%PDF-''" "is_zipfile lib b" "ZipFile lib b = Some z"
    and "odf_mimetype lib z = Some True"
  shows "validate_document lib b sv = report_of (validate_odf lib b sv initial_report) \<or>
         validate_document lib b sv = unsupported (report_of (validate_odf lib b sv initial_report))"
  unfolding validate_document_odf [OF assms]
  by (cases "validate_odf lib b sv initial_report") simp_all


lemma unsupported_fields:
  "compliant (unsupported r) = False" "errors (unsupported r) = errors r @ [unsupported_error]"
  "warnings (unsupported r) = warnings r"
  by (simp_all add: unsupported_def)

lemma odf_checked_fields:
  "compliant (odf_checked lib b doc initial_report) =
     (version doc = Some ''1.2'' \<and> \<not> has_macros lib b)"
  "errors (odf_checked lib b doc initial_report) =
     (if version doc \<noteq> Some ''1.2'' then [version_error (version doc)] else []) @
     (if has_macros lib b then [macro_error] else [])"
  by (auto simp: odf_checked_def check_macros_def check_version_def initial_report_def Let_def)


lemma validate_odf_rules:
  assumes "rules_json sv = rules_json sv'"
  shows "validate_odf lib b sv r = validate_odf lib b sv' r"
  unfolding validate_odf_def assms by (rule refl)

lemma try_zip_rules:
  assumes "rules_json sv = rules_json sv'"
  shows "try_zip lib b sv r = try_zip lib b sv' r"
  unfolding try_zip_def validate_odf_rules [OF assms] by (rule refl)

lemma validate_odf_keeps_checked:
  assumes "load lib b = Inr doc"
  shows "set (errors (odf_checked lib b doc r)) \<subseteq> set (errors (report_of (validate_odf lib b sv r))) \<and>
         (compliant (report_of (validate_odf lib b sv r)) \<longrightarrow> compliant (odf_checked lib b doc r))"
  unfolding validate_odf_loaded [OF assms]
  using validate_styles_keeps
  by (auto simp: check_metadata_errors check_metadata_compliant split: option.splits)


subsection \<open>Plain text\<close>

text \<open>
  Claim C3, as the code has it. A document that is no archive and does not start
  with \<open>%PDF-\<close>, as a plain-text document is, gets the same report under every
  standard version: not compliant, with the one error of the unsupported format. The
  rules of the version are not read.
\<close>

theorem plain_text_unsupported:
  assumes "\<not> is_zipfile lib b" and "\<not> startswith b ''%PDF-''"
  shows "validate_document lib b sv =
           \<lparr>compliant = False, errors = [unsupported_error], warnings = [], details = []\<rparr>"
  using assms by (simp add: validate_document_def)

theorem plain_text_unsupported_witness:
  "\<not> is_zipfile demo_lib ''Hello world'' \<and> \<not> startswith ''Hello world'' ''%PDF-'' \<and>
   validate_document demo_lib ''Hello world'' sv_title =
     \<lparr>compliant = False, errors = [unsupported_error], warnings = [], details = []\<rparr>"
  using plain_text_unsupported [of demo_lib "''Hello world''" sv_title]
  by (simp add: demo_lib_defs startswith_def)

text \<open>
  Claim C3 as stated fails on the error: for the text \<open>Hello world\<close> and the rules
  \<open>{"metadata": {"title": "X"}}\<close> the report is not compliant, and its only error is the
  one of the unsupported format, which does not mention the title in any case.
\<close>

theorem plain_text_title_counterexample:
  "py_get (rules_json sv_title) ''metadata'' (JObj []) = Some (JObj [(''title'', JStr ''X'')]) \<and>
   errors (validate_document demo_lib ''Hello world'' sv_title) =
     [''Unsupported file format. Please upload ODF, PDF, or Word (.docx) files.''] \<and>
   \<not> list_ex (\<lambda>e. str_contains (lower e) ''title'')
        (errors (validate_document demo_lib ''Hello world'' sv_title))"
  by (simp add: validate_document_def demo_lib_defs startswith_def py_get_def
        unsupported_error_def lower_def lower_char_def)

subsection \<open>Purity\<close>

text \<open>
  The handlers on the store do what the handlers on a report value do, to the object
  behind the reference and to no other.
\<close>

lemma change_nth: "p < length h \<Longrightarrow> change p f h ! p = f (h ! p)"
  by (simp add: change_def)

lemma change_length: "length (change p f h) = length h"
  by (simp add: change_def)

lemma change_again: "change p g (change p f h) = change p (\<lambda>r. g (f r)) h"
  by (cases "p < length h") (simp_all add: change_def list_update_beyond not_less)

lemma change_same: "change p (\<lambda>r. r) h = h"
  by (simp add: change_def)

lemma check_styles_obj_refines:
  "p < length h \<Longrightarrow>
   check_styles_obj lib rules ds p h =
     (ending_of (check_styles lib rules ds (h ! p)),
      change p (\<lambda>r. report_of (check_styles lib rules ds r)) h)"
proof (induction lib rules ds p h rule: check_styles_obj.induct)
  case (1 lib ds p h)
  then show ?case by (simp add: change_same)
next
  case (2 lib style_name rules rest ds p h)
  show ?case
  proof (cases "map_of ds style_name")
    case None
    with 2(1) [OF None] 2(3) show ?thesis by (simp add: change_def)
  next
    case (Some doc_props)
    show ?thesis
    proof (cases "py_get rules ''properties'' (JObj [])")
      case None
      with Some show ?thesis by (simp add: change_def)
    next
      case sp: (Some rule_props)
      show ?thesis
      proof (cases "py_items rule_props")
        case None
        with Some sp show ?thesis by (simp add: change_def)
      next
        case si: (Some props)
        from 2(3) have len: "p < length (change p (check_properties lib style_name props doc_props) h)"
          by (simp add: change_length)
        from 2(2) [OF Some sp si len] Some sp si 2(3)
        show ?thesis by (simp add: change_def)
      qed
    qed
  qed
qed

lemma validate_styles_obj_refines:
  "p < length h \<Longrightarrow>
   validate_styles_obj lib doc st p h =
     (ending_of (validate_styles lib doc st (h ! p)),
      change p (\<lambda>r. report_of (validate_styles lib doc st r)) h)"
  by (auto simp: validate_styles_obj_def validate_styles_def check_styles_obj_refines change_def
        split: option.splits)

lemma report_of_case_outcome:
  "report_of (case out of Returned x \<Rightarrow> Returned x | Raised x \<Rightarrow> Raised x
              | Completed x \<Rightarrow> Returned x) = report_of out"
  by (cases out) simp_all

lemma validate_odf_obj_refines:
  assumes "p < length h"
  shows "validate_odf_obj lib b sv p h =
     (ending_of (validate_odf lib b sv (h ! p)),
      change p (\<lambda>r. report_of (validate_odf lib b sv r)) h)"
proof (cases "load lib b")
  case (Inl e)
  then show ?thesis by (simp add: validate_odf_obj_def validate_odf_def)
next
  case (Inr doc)
  have styles: "validate_styles_obj lib doc st p (change p f h) =
      (ending_of (validate_styles lib doc st (f (h ! p))),
       change p (\<lambda>r. report_of (validate_styles lib doc st (f r))) h)" for st f
    using assms
    by (simp add: validate_styles_obj_refines change_length change_nth change_again)
  show ?thesis
    unfolding validate_odf_obj_def validate_odf_def Inr
    using assms
    by (auto simp: Let_def change_again styles change_nth report_of_case_outcome
          split: option.splits outcome.splits)
qed

lemma try_zip_obj_refines:
  assumes "p < length h"
  shows "try_zip_obj lib b sv p h =
     (ending_of (try_zip lib b sv (h ! p)),
      change p (\<lambda>r. report_of (try_zip lib b sv r)) h)"
  unfolding try_zip_obj_def try_zip_def
  using assms
  by (auto simp: Let_def change_again change_same validate_odf_obj_refines
        split: option.splits bool.splits)

lemma validate_document_obj_refines:
  "validate_document_obj lib b sv h = (length h, h @ [validate_document lib b sv])"
proof -
  let ?r0 = "\<lparr>compliant = True, errors = [], warnings = [], details = []\<rparr>"
  have len: "length h < length (h @ [?r0])" by simp
  have ch: "change (length h) f (h @ [?r0]) = h @ [f ?r0]" for f
    by (simp add: change_def)
  show ?thesis
    unfolding validate_document_obj_def validate_document_def new_report_def
    by (cases "try_zip lib b sv ?r0")
       (simp_all add: Let_def try_zip_obj_refines [OF len] ch change_def)
qed

text \<open>
  Of the libraries, \<open>validate_document\<close> uses what they answer for the content it
  is given, and the two conversions of values to text.
\<close>

lemma py_str_lib:
  assumes "str_of lib = str_of lib'"
  shows "py_str lib = py_str lib'"
  by (rule ext) (simp add: py_str_def assms split: json.splits)

lemma check_metadata_lib:
  assumes "str_of lib = str_of lib'"
  shows "check_metadata lib rules md r = check_metadata lib' rules md r"
  by (induction rules arbitrary: r)
     (auto simp: mismatch_warning_def py_str_lib [OF assms] split: option.splits)

lemma check_properties_lib:
  assumes "str_of lib = str_of lib'"
  shows "check_properties lib sn ps dp r = check_properties lib' sn ps dp r"
  by (induction ps arbitrary: r)
     (auto simp: style_warning_def py_str_lib [OF assms] split: option.splits)

lemma check_styles_lib:
  assumes "str_of lib = str_of lib'"
  shows "check_styles lib rules ds r = check_styles lib' rules ds r"
  by (induction rules arbitrary: r)
     (auto simp: check_properties_lib [OF assms] split: option.splits)

lemma validate_odf_lib:
  assumes "ZipFile lib b = ZipFile lib' b" and "load lib b = load lib' b"
    and "str_of lib = str_of lib'"
  shows "validate_odf lib b sv r = validate_odf lib' b sv r"
  unfolding validate_odf_def validate_styles_def check_macros_def has_macros_def assms(1,2)
    check_metadata_lib [OF assms(3)] check_styles_lib [OF assms(3)]
  by (rule refl)

lemma try_zip_lib:
  assumes "ZipFile lib b = ZipFile lib' b" and "load lib b = load lib' b"
    and "decode_utf8 lib = decode_utf8 lib'" and "str_of lib = str_of lib'"
  shows "try_zip lib b sv r = try_zip lib' b sv r"
  unfolding try_zip_def odf_mimetype_def has_macros_docx_def assms(1,3)
    validate_odf_lib [OF assms(1,2,4)]
  by (rule refl)

lemma validate_document_lib:
  assumes "is_zipfile lib b = is_zipfile lib' b"
    and "ZipFile lib b = ZipFile lib' b" and "load lib b = load lib' b"
    and "decode_utf8 lib = decode_utf8 lib'" and "str_of lib = str_of lib'"
  shows "validate_document lib b sv = validate_document lib' b sv"
  unfolding validate_document_def assms(1) try_zip_lib [OF assms(2-5)]
  by (rule refl)

lemma validate_document_rules:
  assumes "rules_json sv = rules_json sv'"
  shows "validate_document lib b sv = validate_document lib b sv'"
  unfolding validate_document_def try_zip_rules [OF assms] by (rule refl)

text \<open>
  Claim C9. A call of \<open>validate_document\<close> on any store creates one new report and
  changes no report that existed; the content of the new report is the value of
  \<open>validate_document\<close> above, whatever the store holds. It is the same

  \<^item> for two standard versions with the same \<open>rules_json\<close>, whatever their standard,
    number and active flag, and

  \<^item> for two libraries that answer alike for this content, whatever they answer for any
    other.

  So a second call with the same bytes and rules, on the store the first call has left,
  returns a new report with the content of the first, which it leaves as it was.
\<close>

theorem validate_document_pure:
  assumes "rules_json sv = rules_json sv'"
    and "is_zipfile lib b = is_zipfile lib' b"
    and "ZipFile lib b = ZipFile lib' b" and "load lib b = load lib' b"
    and "decode_utf8 lib = decode_utf8 lib'" and "str_of lib = str_of lib'"
  shows "validate_document_obj lib b sv h = (length h, h @ [validate_document lib b sv]) \<and>
         validate_document_obj lib' b sv' h' = (length h', h' @ [validate_document lib b sv]) \<and>
         (case validate_document_obj lib b sv h of
            (p, h1) \<Rightarrow>
              (case validate_document_obj lib' b sv' h1 of
                 (q, h2) \<Rightarrow>
                   p \<noteq> q \<and> h2 ! q = h1 ! p \<and> h2 ! p = h1 ! p \<and>
                   take (length h1) h2 = h1 \<and> take (length h) h1 = h))"
proof -
  have same: "validate_document lib' b sv' = validate_document lib b sv"
    using validate_document_lib [OF assms(2-6), of sv] validate_document_rules [OF assms(1), of lib' b]
    by simp
  have first: "validate_document_obj lib b sv h = (length h, h @ [validate_document lib b sv])"
    by (rule validate_document_obj_refines)
  have any: "validate_document_obj lib' b sv' k = (length k, k @ [validate_document lib b sv])" for k
    by (simp add: validate_document_obj_refines same)
  show ?thesis
    by (simp add: first any nth_append)
qed

theorem validate_document_pure_witness:
  "rules_json sv_rules =
     rules_json (sv_rules\<lparr>standard_id := 5, version_number := 9, is_active := True\<rparr>) \<and>
   sv_rules \<noteq> sv_rules\<lparr>standard_id := 5, version_number := 9, is_active := True\<rparr> \<and>
   is_zipfile demo_lib ''PK:report.odt'' \<and> \<not> is_zipfile styled_lib ''PK:report.odt'' \<and>
   validate_document_obj demo_lib ''PK:styled.odt'' sv_rules [] =
     (0, [\<lparr>compliant = False, errors = [missing_error ''subject'', unsupported_error],
           warnings = [mismatch_warning demo_lib ''title'' (JStr ''X'') ''Report''],
           details = [(''format'', ''ODF'')]\<rparr>]) \<and>
   validate_document_obj styled_lib ''PK:styled.odt''
       (sv_rules\<lparr>standard_id := 5, version_number := 9, is_active := True\<rparr>)
       [\<lparr>compliant = True, errors = [], warnings = [pdf_warning], details = [(''format'', ''PDF'')]\<rparr>,
        \<lparr>compliant = False, errors = [missing_error ''subject'', unsupported_error],
          warnings = [mismatch_warning demo_lib ''title'' (JStr ''X'') ''Report''],
          details = [(''format'', ''ODF'')]\<rparr>] =
     (2, [\<lparr>compliant = True, errors = [], warnings = [pdf_warning], details = [(''format'', ''PDF'')]\<rparr>,
          \<lparr>compliant = False, errors = [missing_error ''subject'', unsupported_error],
            warnings = [mismatch_warning demo_lib ''title'' (JStr ''X'') ''Report''],
            details = [(''format'', ''ODF'')]\<rparr>,
          \<lparr>compliant = False, errors = [missing_error ''subject'', unsupported_error],
            warnings = [mismatch_warning demo_lib ''title'' (JStr ''X'') ''Report''],
            details = [(''format'', ''ODF'')]\<rparr>])"
proof -
  let ?sv = "sv_rules\<lparr>standard_id := 5, version_number := 9, is_active := True\<rparr>"
  let ?pdf = "\<lparr>compliant = True, errors = [], warnings = [pdf_warning],
      details = [(''format'', ''PDF'')]\<rparr>"
  let ?R = "\<lparr>compliant = False, errors = [missing_error ''subject'', unsupported_error],
      warnings = [mismatch_warning demo_lib ''title'' (JStr ''X'') ''Report''],
      details = [(''format'', ''ODF'')]\<rparr>"
  have rules: "rules_json sv_rules = rules_json ?sv" "sv_rules \<noteq> ?sv"
    by (simp_all add: sv_rules_def)
  have libs: "is_zipfile demo_lib ''PK:styled.odt'' = is_zipfile styled_lib ''PK:styled.odt''"
    "ZipFile demo_lib ''PK:styled.odt'' = ZipFile styled_lib ''PK:styled.odt''"
    "load demo_lib ''PK:styled.odt'' = load styled_lib ''PK:styled.odt''"
    "decode_utf8 demo_lib = decode_utf8 styled_lib" "str_of demo_lib = str_of styled_lib"
    by (simp_all add: demo_lib_def styled_lib_def table_lib_def demo_files_def)
  have other: "is_zipfile demo_lib ''PK:report.odt''" "\<not> is_zipfile styled_lib ''PK:report.odt''"
    by (simp_all add: demo_lib_def styled_lib_def table_lib_def demo_files_def)
  have val: "validate_document demo_lib ''PK:styled.odt'' sv_rules = ?R"
    by (simp add: validate_document_def try_zip_def odf_mimetype_def validate_odf_def
          check_version_def check_macros_def has_macros_def validate_styles_def
          py_get_def py_items_def Let_def demo_lib_defs startswith_def)
  from validate_document_pure [OF rules(1) libs, of "[]" "[?pdf, ?R]"] val rules other
  show ?thesis by simp
qed

subsection \<open>Compliance and errors\<close>

text \<open>
  Claim C10. For every input the returned report is compliant exactly when its list of
  errors is empty: each step that adds an error sets \<open>compliant\<close> to \<open>False\<close>, no step
  sets it back, and a warning changes neither. This holds also when a step raises and
  the report ends as unsupported.
\<close>

theorem validate_compliant_iff_no_errors:
  "compliant (validate_document lib b sv) \<longleftrightarrow> errors (validate_document lib b sv) = []"
proof -
  define r0 where "r0 = \<lparr>compliant = True, errors = [], warnings = [], details = []\<rparr>"
  have c0: "consistent r0" by (simp add: r0_def consistent_def)
  have "consistent (report_of (try_zip lib b sv r0))"
    using c0 by (rule try_zip_consistent)
  then have "consistent (validate_document lib b sv)"
    by (cases "try_zip lib b sv r0")
       (auto simp: validate_document_def Let_def consistent_def r0_def)
  then show ?thesis by (simp add: consistent_def)
qed

theorem validate_compliant_iff_no_errors_witness:
  "compliant (validate_document demo_lib ''PK:report.odt'' sv_title) \<and>
   errors (validate_document demo_lib ''PK:report.odt'' sv_title) = [] \<and>
   \<not> compliant (validate_document demo_lib ''PK:macro.docm'' sv_title) \<and>
   errors (validate_document demo_lib ''PK:macro.docm'' sv_title) \<noteq> []"
proof -
  have a: "errors (validate_document demo_lib ''PK:report.odt'' sv_title) = []"
    by (simp add: validate_document_def try_zip_def odf_mimetype_def validate_odf_def
          check_version_def check_macros_def has_macros_def validate_styles_def
          py_get_def py_items_def Let_def demo_lib_defs startswith_def)
  have b: "\<not> compliant (validate_document demo_lib ''PK:macro.docm'' sv_title)"
    by (simp add: validate_document_def try_zip_def odf_mimetype_def
          has_macros_docx_def Let_def demo_lib_defs startswith_def)
  from a b validate_compliant_iff_no_errors [of demo_lib "''PK:report.odt''" sv_title]
    validate_compliant_iff_no_errors [of demo_lib "''PK:macro.docm''" sv_title]
  show ?thesis by simp
qed

subsection \<open>Macros\<close>

text \<open>
  Claim C6, as the code has it. Take a document that does not start with \<open>%PDF-\<close>
  and whose archive opens. If it goes to the ODF handler and \<open>load\<close> accepts it, an
  entry under \<open>Basic/\<close> or \<open>Scripts/\<close> makes the report not compliant with the macro
  error, whatever the version, the metadata and the styles give and even when a later
  step raises. If it has no ODF mimetype and holds \<open>word/document.xml\<close>, an entry that
  contains \<open>vbaProject\<close>, ends in \<open>.vba\<close> or contains \<open>macros\<close> in any case makes the
  report not compliant with the macro error of Word documents.
\<close>

theorem macro_entry_forces_failure:
  assumes "\<not> startswith b ''%PDF-''" and "is_zipfile lib b" and "ZipFile lib b = Some z"
  shows "(odf_mimetype lib z = Some True \<and> load lib b = Inr doc \<and>
          list_ex (\<lambda>n. startswith n ''Basic/'' \<or> startswith n ''Scripts/'') (namelist z)
          \<longrightarrow> \<not> compliant (validate_document lib b sv) \<and>
              macro_error \<in> set (errors (validate_document lib b sv))) \<and>
         (odf_mimetype lib z = Some False \<and> ''word/document.xml'' \<in> set (namelist z) \<and>
          list_ex (\<lambda>n. str_contains n ''vbaProject'' \<or> endswith n ''.vba'' \<or>
                        str_contains (lower n) ''macros'') (namelist z)
          \<longrightarrow> \<not> compliant (validate_document lib b sv) \<and>
              docx_macro_error \<in> set (errors (validate_document lib b sv)))"
proof (intro conjI impI)
  assume odf: "odf_mimetype lib z = Some True \<and> load lib b = Inr doc \<and>
          list_ex (\<lambda>n. startswith n ''Basic/'' \<or> startswith n ''Scripts/'') (namelist z)"
  then have m: "has_macros lib b" using assms(3) by (simp add: has_macros_def)
  then have c: "\<not> compliant (odf_checked lib b doc initial_report)"
    and e: "macro_error \<in> set (errors (odf_checked lib b doc initial_report))"
    by (simp_all add: odf_checked_fields)
  from odf have ld: "load lib b = Inr doc" by simp
  from validate_odf_keeps_checked [OF ld, of initial_report sv] c e
  have k: "\<not> compliant (report_of (validate_odf lib b sv initial_report))"
    "macro_error \<in> set (errors (report_of (validate_odf lib b sv initial_report)))"
    by auto
  from odf have mt: "odf_mimetype lib z = Some True" by simp
  from validate_document_odf_report [OF assms mt, of sv] k
  show "\<not> compliant (validate_document lib b sv)"
    and "macro_error \<in> set (errors (validate_document lib b sv))"
    by (auto simp: unsupported_fields)
next
  assume docx: "odf_mimetype lib z = Some False \<and> ''word/document.xml'' \<in> set (namelist z) \<and>
          list_ex (\<lambda>n. str_contains n ''vbaProject'' \<or> endswith n ''.vba'' \<or>
                        str_contains (lower n) ''macros'') (namelist z)"
  then have m: "has_macros_docx lib b" using assms(3) by (simp add: has_macros_docx_def)
  with docx assms
  show "\<not> compliant (validate_document lib b sv)"
    and "docx_macro_error \<in> set (errors (validate_document lib b sv))"
    by (simp_all add: validate_document_def try_zip_def Let_def)
qed

theorem macro_entry_forces_failure_witness:
  "\<not> compliant (validate_document demo_lib ''PK:macro.odt'' sv_rules) \<and>
   macro_error \<in> set (errors (validate_document demo_lib ''PK:macro.odt'' sv_rules)) \<and>
   \<not> compliant (validate_document demo_lib ''PK:macro.docm'' sv_rules) \<and>
   docx_macro_error \<in> set (errors (validate_document demo_lib ''PK:macro.docm'' sv_rules))"
proof -
  have odt: "\<not> startswith ''PK:macro.odt'' ''%PDF-''" "is_zipfile demo_lib ''PK:macro.odt''"
    "ZipFile demo_lib ''PK:macro.odt'' =
       Some (archive (odt_names @ [''Basic/Standard/Module1.xml'']))"
    "odf_mimetype demo_lib (archive (odt_names @ [''Basic/Standard/Module1.xml''])) = Some True"
    "load demo_lib ''PK:macro.odt'' = Inr doc_report"
    "list_ex (\<lambda>n. startswith n ''Basic/'' \<or> startswith n ''Scripts/'')
       (namelist (archive (odt_names @ [''Basic/Standard/Module1.xml''])))"
    by (simp_all add: demo_lib_def table_lib_def demo_files_def archive_def odt_names_def
          odf_mimetype_def startswith_def)
  have docm: "\<not> startswith ''PK:macro.docm'' ''%PDF-''" "is_zipfile demo_lib ''PK:macro.docm''"
    "ZipFile demo_lib ''PK:macro.docm'' = Some (archive (docx_names @ [''word/vbaProject.bin'']))"
    "odf_mimetype demo_lib (archive (docx_names @ [''word/vbaProject.bin''])) = Some False"
    "''word/document.xml'' \<in> set (namelist (archive (docx_names @ [''word/vbaProject.bin''])))"
    "list_ex (\<lambda>n. str_contains n ''vbaProject'' \<or> endswith n ''.vba'' \<or>
                   str_contains (lower n) ''macros'')
       (namelist (archive (docx_names @ [''word/vbaProject.bin''])))"
    by (simp_all add: demo_lib_def table_lib_def demo_files_def archive_def docx_names_def
          odf_mimetype_def startswith_def)
  from macro_entry_forces_failure [OF odt(1,2,3), of doc_report sv_rules] odt(4,5,6)
    macro_entry_forces_failure [OF docm(1,2,3), of doc_report sv_rules] docm(4,5,6)
  show ?thesis by simp
qed

text \<open>
  Claim C6 as stated fails twice. A Word package with a VBA project behind a PDF
  header is taken for a PDF and reported compliant, without a macro scan. An archive
  with the ODF mimetype and a Basic library that \<open>load\<close> rejects is not compliant, but
  its only error is the one of the invalid file.
\<close>

theorem macro_entry_counterexample:
  "has_macros_docx demo_lib ''%PDF-1.7 PK:macro.docm'' \<and>
   validate_document demo_lib ''%PDF-1.7 PK:macro.docm'' sv_rules =
     \<lparr>compliant = True, errors = [], warnings = [pdf_warning],
      details = [(''format'', ''PDF'')]\<rparr> \<and>
   has_macros demo_lib ''PK:broken.odt'' \<and>
   validate_document demo_lib ''PK:broken.odt'' sv_rules =
     \<lparr>compliant = False,
      errors = [''Invalid ODF file: There is no item named META-INF/manifest.xml in the archive''],
      warnings = [], details = []\<rparr>"
  by (simp add: validate_document_def try_zip_def odf_mimetype_def validate_odf_def
        has_macros_def has_macros_docx_def invalid_odf_error_def Let_def
        demo_lib_def table_lib_def demo_files_def archive_def odt_names_def docx_names_def
        startswith_def)

subsection \<open>Metadata rules\<close>



end
